theory Spec2Isabelle
  imports Main "HOL-Library.Word"
begin

section \<open>The ACIS entity loader of ezdxf (\<open>src/ezdxf/_acis/entities.py\<close>)\<close>

text \<open>
  The module turns the record list of a tokenizer (\<open>sab.parse_sab\<close> for the binary
  encoding, \<open>sat.parse_sat\<close> for the text encoding) into a graph of entity objects.
  The tokenizers, their record classes and the two data parsers live in modules that
  are not part of the sources at hand; they appear below as parameters and as plain
  data carrying exactly what \<open>entities.py\<close> reads from them.
\<close>

subsection \<open>Exceptions\<close>

datatype py_error =
    TypeError string
  | FormatError string
  | AttributeError string

subsection \<open>What the tokenizers hand over\<close>

text \<open>
  Modelled from the spec: the record classes of \<open>sab.py\<close> and \<open>sat.py\<close> are not
  among the sources.  The \<open>attributes\<close> member of a raw record is a reference to
  another record or the null-pointer sentinel; the loader only asks it
  \<open>is_null_ptr\<close>.  A pointer keeps the identity (\<open>id(...)\<close>) and the name of the
  record it points to.
\<close>

datatype raw_ref = NullPtr | Ptr nat string

fun is_null_ptr :: "raw_ref \<Rightarrow> bool" where
  "is_null_ptr NullPtr = True"
| "is_null_ptr (Ptr uid nm) = False"

text \<open>
  A raw record, with the members \<open>entities.py\<close> reads: \<open>rec_uid\<close> is the object
  identity \<open>id(sab_entity)\<close>, the other fields are the members \<open>name\<close>, \<open>id\<close>,
  \<open>attributes\<close> and \<open>data\<close>.
\<close>

record 'tok raw_entity =
  rec_uid :: nat
  rec_name :: string
  rec_id :: int
  rec_attributes :: raw_ref
  rec_data :: "'tok list"

text \<open>The builder returned by a tokenizer: \<open>builder.header.version\<close> and \<open>builder.entities\<close>.\<close>

record 'tok builder =
  header_version :: int
  builder_entities :: "'tok raw_entity list"

text \<open>
  Modelled from the spec: the field tokens of the two encodings (the binary one is a
  typed tag byte with a payload, the text one a lexical token).
\<close>

type_synonym sab_token = "8 word \<times> 8 word list"
type_synonym sat_token = string

text \<open>\<open>sab.SabDataParser(data, version)\<close> and \<open>sat.SatDataParser(data, version)\<close>.\<close>

datatype data_parser =
    SabDataParser "sab_token list" int
  | SatDataParser "sat_token list" int

subsection \<open>Entity classes and the registry\<close>

text \<open>
  A class is a value: its name, the names of its base classes, the class attribute
  \<open>type\<close> and its \<open>parse\<close> method.  The only \<open>parse\<close> in the sources is the
  empty one of \<open>AcisEntity\<close>; the subtypes that override it live in other modules.
  Modelled from the spec: what a \<open>parse\<close> method does to the loader is to raise, or
  to call the entity factory some number of times with \<open>(uid, entity_type)\<close> and
  keep the entities it got in its own fields; the method is therefore given by the
  error it raises or the list of factory calls it makes.
\<close>

record acis_class =
  cls_name :: string
  cls_bases :: "string list"
  cls_type :: string
  cls_parse :: "data_parser \<Rightarrow> py_error + (nat \<times> string) list"

definition AcisEntity :: acis_class where
  "AcisEntity = \<lparr> cls_name = ''AcisEntity'', cls_bases = [],
                   cls_type = ''unsupported-entity'',
                   cls_parse = (\<lambda>parser. Inr []) \<rparr>"

definition Body :: acis_class where
  "Body = \<lparr> cls_name = ''Body'', cls_bases = [''AcisEntity''],
             cls_type = ''body'',
             cls_parse = cls_parse AcisEntity \<rparr>"

type_synonym registry = "string \<rightharpoonup> acis_class"

definition register :: "acis_class \<Rightarrow> registry \<Rightarrow> acis_class \<times> registry" where
  "register cls ENTITY_TYPES = (cls, ENTITY_TYPES(cls_type cls \<mapsto> cls))"

text \<open>The registry once the module is imported: empty, then \<open>@register class Body\<close>.\<close>

definition ENTITY_TYPES_init :: registry where
  "ENTITY_TYPES_init = snd (register Body Map.empty)"

subsection \<open>Entity objects and the loader\<close>

text \<open>
  An entity object: its class, the instance attribute \<open>id\<close> (declared without a
  value, so unset until assigned), \<open>attributes\<close> (class default \<open>None\<close>, else a
  reference to an entity object) and the entities its \<open>parse\<close> step kept.
  References are indices into the object store.
\<close>

record acis_entity =
  ent_cls :: acis_class
  ent_id :: "int option"
  ent_attributes :: "nat option"
  ent_refs :: "nat list"

definition new_entity :: "acis_class \<Rightarrow> acis_entity" where
  "new_entity cls = \<lparr> ent_cls = cls, ent_id = None, ent_attributes = None, ent_refs = [] \<rparr>"

definition isinstance :: "acis_entity \<Rightarrow> acis_class \<Rightarrow> bool" where
  "isinstance e cls \<longleftrightarrow> cls_name cls \<in> set (cls_name (ent_cls e) # cls_bases (ent_cls e))"

text \<open>Reading \<open>entity.id\<close>: an AttributeError while the attribute is unset.\<close>

definition read_id :: "acis_entity \<Rightarrow> py_error + int" where
  "read_id e = (case ent_id e of None \<Rightarrow> Inl (AttributeError ''id'') | Some i \<Rightarrow> Inr i)"

text \<open>
  The loader: the dict \<open>entities\<close> in insertion order, \<open>version\<close>, \<open>records\<close>, and the
  store of the entity objects created so far.
\<close>

record 'tok loader =
  entities :: "(nat \<times> nat) list"
  version :: int
  records :: "'tok raw_entity list"
  objects :: "acis_entity list"

definition Loader_init :: "int \<Rightarrow> 'tok raw_entity list \<Rightarrow> 'tok loader" where
  "Loader_init v rs = \<lparr> entities = [], version = v, records = rs, objects = [] \<rparr>"

definition get_entity :: "registry \<Rightarrow> nat \<Rightarrow> string \<Rightarrow> 'tok loader \<Rightarrow> nat \<times> 'tok loader" where
  "get_entity ENTITY_TYPES uid entity_type L =
     (case map_of (entities L) uid of
        Some entity \<Rightarrow> (entity, L)
      | None \<Rightarrow>
          (let entity = length (objects L);
               obj = new_entity (case ENTITY_TYPES entity_type of
                                   Some cls \<Rightarrow> cls | None \<Rightarrow> AcisEntity)
           in (entity, L\<lparr> objects := objects L @ [obj],
                          entities := entities L @ [(uid, entity)] \<rparr>)))"

definition bodies :: "'tok loader \<Rightarrow> nat list" where
  "bodies L = [e \<leftarrow> map snd (entities L). isinstance (objects L ! e) Body]"

text \<open>The assignments \<open>entity.id = ...\<close> and \<open>entity.attributes = ...\<close>.\<close>

definition set_id :: "nat \<Rightarrow> int \<Rightarrow> 'tok loader \<Rightarrow> 'tok loader" where
  "set_id entity i L = L\<lparr> objects := (objects L)[entity := (objects L ! entity)\<lparr> ent_id := Some i \<rparr>] \<rparr>"

definition set_attributes :: "nat \<Rightarrow> nat \<Rightarrow> 'tok loader \<Rightarrow> 'tok loader" where
  "set_attributes entity a L =
     L\<lparr> objects := (objects L)[entity := (objects L ! entity)\<lparr> ent_attributes := Some a \<rparr>] \<rparr>"

text \<open>The factory calls of a \<open>parse\<close> method, in order.\<close>

fun factory_calls :: "registry \<Rightarrow> (nat \<times> string) list \<Rightarrow> 'tok loader \<Rightarrow> nat list \<times> 'tok loader" where
  "factory_calls ENTITY_TYPES [] L = ([], L)"
| "factory_calls ENTITY_TYPES ((uid, entity_type) # calls) L =
     (let (e, L1) = get_entity ENTITY_TYPES uid entity_type L;
          (es, L2) = factory_calls ENTITY_TYPES calls L1
      in (e # es, L2))"

text \<open>\<open>entity.parse(args, entity_factory)\<close>, dispatched on the class of the object.\<close>

definition parse :: "registry \<Rightarrow> nat \<Rightarrow> data_parser \<Rightarrow> 'tok loader \<Rightarrow> py_error + 'tok loader" where
  "parse ENTITY_TYPES entity args L =
     (case cls_parse (ent_cls (objects L ! entity)) args of
        Inl err \<Rightarrow> Inl err
      | Inr calls \<Rightarrow>
          (let (es, L1) = factory_calls ENTITY_TYPES calls L
           in Inr (L1\<lparr> objects := (objects L1)[entity := (objects L1 ! entity)\<lparr> ent_refs := es \<rparr>] \<rparr>)))"

subsection \<open>The binary loader\<close>

definition SabLoader_init ::
  "(8 word list \<Rightarrow> py_error + sab_token builder) \<Rightarrow> 8 word list \<Rightarrow> py_error + sab_token loader" where
  "SabLoader_init parse_sab data =
     (case parse_sab data of
        Inl err \<Rightarrow> Inl err
      | Inr builder \<Rightarrow> Inr (Loader_init (header_version builder) (builder_entities builder)))"

text \<open>The \<open>for\<close> loop of \<open>SabLoader.load_entities\<close> over the records still to visit.\<close>

fun SabLoader_loop ::
  "registry \<Rightarrow> sab_token raw_entity list \<Rightarrow> sab_token loader \<Rightarrow> py_error + sab_token loader" where
  "SabLoader_loop ENTITY_TYPES [] L = Inr L"
| "SabLoader_loop ENTITY_TYPES (sab_entity # rest) L =
     (let (entity, L1) = get_entity ENTITY_TYPES (rec_uid sab_entity) (rec_name sab_entity) L;
          L2 = set_id entity (rec_id sab_entity) L1;
          attributes = rec_attributes sab_entity;
          L3 = (if \<not> is_null_ptr attributes
                then (let (a, L') = get_entity ENTITY_TYPES (rec_uid sab_entity) (rec_name sab_entity) L2
                      in set_attributes entity a L')
                else L2);
          args = SabDataParser (rec_data sab_entity) (version L3)
      in case parse ENTITY_TYPES entity args L3 of
           Inl err \<Rightarrow> Inl err
         | Inr L4 \<Rightarrow> SabLoader_loop ENTITY_TYPES rest L4)"

definition SabLoader_load_entities :: "registry \<Rightarrow> sab_token loader \<Rightarrow> py_error + sab_token loader" where
  "SabLoader_load_entities ENTITY_TYPES L = SabLoader_loop ENTITY_TYPES (records L) L"

text \<open>
  \<open>SabLoader.load\<close> returns \<open>loader.bodies()\<close>; the result carries the object store
  the returned references point into.
\<close>

definition SabLoader_load ::
  "(8 word list \<Rightarrow> py_error + sab_token builder) \<Rightarrow> registry \<Rightarrow> 8 word list
     \<Rightarrow> py_error + (nat list \<times> acis_entity list)" where
  "SabLoader_load parse_sab ENTITY_TYPES data =
     (case SabLoader_init parse_sab data of
        Inl err \<Rightarrow> Inl err
      | Inr loader \<Rightarrow>
          (case SabLoader_load_entities ENTITY_TYPES loader of
             Inl err \<Rightarrow> Inl err
           | Inr loader' \<Rightarrow> Inr (bodies loader', objects loader')))"

subsection \<open>The text loader\<close>

definition SatLoader_init ::
  "(string \<Rightarrow> py_error + sat_token builder) \<Rightarrow> string \<Rightarrow> py_error + sat_token loader" where
  "SatLoader_init parse_sat data =
     (case parse_sat data of
        Inl err \<Rightarrow> Inl err
      | Inr builder \<Rightarrow> Inr (Loader_init (header_version builder) (builder_entities builder)))"

fun SatLoader_loop ::
  "registry \<Rightarrow> sat_token raw_entity list \<Rightarrow> sat_token loader \<Rightarrow> py_error + sat_token loader" where
  "SatLoader_loop ENTITY_TYPES [] L = Inr L"
| "SatLoader_loop ENTITY_TYPES (sat_entity # rest) L =
     (let (entity, L1) = get_entity ENTITY_TYPES (rec_uid sat_entity) (rec_name sat_entity) L;
          L2 = set_id entity (rec_id sat_entity) L1;
          attributes = rec_attributes sat_entity;
          L3 = (if \<not> is_null_ptr attributes
                then (let (a, L') = get_entity ENTITY_TYPES (rec_uid sat_entity) (rec_name sat_entity) L2
                      in set_attributes entity a L')
                else L2);
          args = SatDataParser (rec_data sat_entity) (version L3)
      in case parse ENTITY_TYPES entity args L3 of
           Inl err \<Rightarrow> Inl err
         | Inr L4 \<Rightarrow> SatLoader_loop ENTITY_TYPES rest L4)"

definition SatLoader_load_entities :: "registry \<Rightarrow> sat_token loader \<Rightarrow> py_error + sat_token loader" where
  "SatLoader_load_entities ENTITY_TYPES L = SatLoader_loop ENTITY_TYPES (records L) L"

definition SatLoader_load ::
  "(string \<Rightarrow> py_error + sat_token builder) \<Rightarrow> registry \<Rightarrow> string
     \<Rightarrow> py_error + (nat list \<times> acis_entity list)" where
  "SatLoader_load parse_sat ENTITY_TYPES data =
     (case SatLoader_init parse_sat data of
        Inl err \<Rightarrow> Inl err
      | Inr loader \<Rightarrow>
          (case SatLoader_load_entities ENTITY_TYPES loader of
             Inl err \<Rightarrow> Inl err
           | Inr loader' \<Rightarrow> Inr (bodies loader', objects loader')))"

subsection \<open>The entry point\<close>

text \<open>
  The argument of \<open>load\<close>: \<open>bytes\<close>, \<open>bytearray\<close>, \<open>str\<close>, or a value of any other
  type, of which the model keeps the text of \<open>type(data)\<close>.
\<close>

datatype py_data =
    Bytes "8 word list"
  | ByteArray "8 word list"
  | Str string
  | Other string

definition load ::
  "(8 word list \<Rightarrow> py_error + sab_token builder) \<Rightarrow> (string \<Rightarrow> py_error + sat_token builder)
     \<Rightarrow> registry \<Rightarrow> py_data \<Rightarrow> py_error + (nat list \<times> acis_entity list)" where
  "load parse_sab parse_sat ENTITY_TYPES data =
     (case data of
        Bytes b \<Rightarrow> SabLoader_load parse_sab ENTITY_TYPES b
      | ByteArray b \<Rightarrow> SabLoader_load parse_sab ENTITY_TYPES b
      | Str s \<Rightarrow> SatLoader_load parse_sat ENTITY_TYPES s
      | Other ty \<Rightarrow> Inl (TypeError (''invalid type of data: '' @ ty)))"

subsection \<open>One iteration of the loops, and what the loader maintains\<close>

text \<open>
  The two loops differ in the data parser they construct and in nothing else;
  \<open>load_record\<close> is their common body with the parser constructor as a parameter.
\<close>

definition load_record ::
  "registry \<Rightarrow> ('tok list \<Rightarrow> int \<Rightarrow> data_parser) \<Rightarrow> 'tok raw_entity \<Rightarrow> 'tok loader
     \<Rightarrow> py_error + 'tok loader" where
  "load_record ENTITY_TYPES mk r L =
     (let (entity, L1) = get_entity ENTITY_TYPES (rec_uid r) (rec_name r) L;
          L2 = set_id entity (rec_id r) L1;
          attributes = rec_attributes r;
          L3 = (if \<not> is_null_ptr attributes
                then (let (a, L') = get_entity ENTITY_TYPES (rec_uid r) (rec_name r) L2
                      in set_attributes entity a L')
                else L2);
          args = mk (rec_data r) (version L3)
      in parse ENTITY_TYPES entity args L3)"

fun load_records ::
  "registry \<Rightarrow> ('tok list \<Rightarrow> int \<Rightarrow> data_parser) \<Rightarrow> 'tok raw_entity list \<Rightarrow> 'tok loader
     \<Rightarrow> py_error + 'tok loader" where
  "load_records ENTITY_TYPES mk [] L = Inr L"
| "load_records ENTITY_TYPES mk (r # rest) L =
     (case load_record ENTITY_TYPES mk r L of
        Inl err \<Rightarrow> Inl err
      | Inr L' \<Rightarrow> load_records ENTITY_TYPES mk rest L')"

text \<open>
  The dict has one entry per key, and the entity objects are exactly the values of the
  dict, in the order of their creation.
\<close>

definition wf_loader :: "'tok loader \<Rightarrow> bool" where
  "wf_loader L \<longleftrightarrow>
     distinct (map fst (entities L)) \<and> map snd (entities L) = [0..<length (objects L)]"

text \<open>
  What the visited records \<open>ds\<close> have assigned to the entity memoized under \<open>uid\<close>:
  the \<open>id\<close> of the last visited record of that identity, and the \<open>attributes\<close> link.
\<close>

definition assigned_id :: "'tok raw_entity list \<Rightarrow> nat \<Rightarrow> int option" where
  "assigned_id ds uid = map_of (map (\<lambda>r. (rec_uid r, rec_id r)) (rev ds)) uid"

definition assigned_attributes :: "'tok raw_entity list \<Rightarrow> nat \<Rightarrow> nat \<Rightarrow> nat option" where
  "assigned_attributes ds uid entity =
     (if \<exists>r \<in> set ds. rec_uid r = uid \<and> \<not> is_null_ptr (rec_attributes r)
      then Some entity else None)"

definition loaded :: "'tok raw_entity list \<Rightarrow> 'tok loader \<Rightarrow> bool" where
  "loaded ds L \<longleftrightarrow>
     wf_loader L \<and>
     (\<forall>r \<in> set ds. map_of (entities L) (rec_uid r) \<noteq> None) \<and>
     (\<forall>uid entity. map_of (entities L) uid = Some entity \<longrightarrow>
        ent_id (objects L ! entity) = assigned_id ds uid \<and>
        ent_attributes (objects L ! entity) = assigned_attributes ds uid entity)"

subsection \<open>A concrete stream\<close>

text \<open>
  A registered subtype in the shape the geometry modules define them: its \<open>parse\<close>
  raises a FormatError on an empty field list and otherwise resolves one reference,
  to the record of identity 3 and name \<open>vertex\<close>.
\<close>

definition Edge :: acis_class where
  "Edge = \<lparr> cls_name = ''Edge'', cls_bases = [''AcisEntity''],
             cls_type = ''edge'',
             cls_parse = (\<lambda>parser. case parser of
                 SabDataParser toks v \<Rightarrow>
                   if toks = [] then Inl (FormatError ''edge: missing field'') else Inr [(3, ''vertex'')]
               | SatDataParser toks v \<Rightarrow>
                   if toks = [] then Inl (FormatError ''edge: missing field'') else Inr [(3, ''vertex'')]) \<rparr>"

definition ex_registry :: registry where
  "ex_registry = snd (register Edge ENTITY_TYPES_init)"

text \<open>
  Three records: a body without attributes, an edge whose attributes point to the
  body and whose data holds one reference, and a record of an unregistered type.
\<close>

definition ex_body :: "'tok raw_entity" where
  "ex_body = \<lparr> rec_uid = 1, rec_name = ''body'', rec_id = 10, rec_attributes = NullPtr,
                rec_data = [] \<rparr>"

definition ex_edge :: "'tok \<Rightarrow> 'tok raw_entity" where
  "ex_edge tok = \<lparr> rec_uid = 2, rec_name = ''edge'', rec_id = 11,
                    rec_attributes = Ptr 1 ''body'', rec_data = [tok] \<rparr>"

definition ex_unknown :: "'tok raw_entity" where
  "ex_unknown = \<lparr> rec_uid = 4, rec_name = ''unknown-xyz'', rec_id = 12,
                   rec_attributes = NullPtr, rec_data = [] \<rparr>"

definition ex_records :: "'tok \<Rightarrow> 'tok raw_entity list" where
  "ex_records tok = [ex_body, ex_edge tok, ex_unknown]"

definition ex_sab_token :: sab_token where
  "ex_sab_token = (12, [3, 0, 0, 0])"

definition ex_sat_token :: sat_token where
  "ex_sat_token = ''$3''"

text \<open>The object store after loading \<open>ex_records\<close>.\<close>

definition ex_objects :: "acis_entity list" where
  "ex_objects =
     [ \<lparr> ent_cls = Body, ent_id = Some 10, ent_attributes = None, ent_refs = [] \<rparr>,
       \<lparr> ent_cls = Edge, ent_id = Some 11, ent_attributes = Some 1, ent_refs = [2] \<rparr>,
       \<lparr> ent_cls = AcisEntity, ent_id = None, ent_attributes = None, ent_refs = [] \<rparr>,
       \<lparr> ent_cls = AcisEntity, ent_id = Some 12, ent_attributes = None, ent_refs = [] \<rparr> ]"

definition ex_loaded :: "'tok \<Rightarrow> 'tok loader" where
  "ex_loaded tok = \<lparr> entities = [(1, 0), (2, 1), (3, 2), (4, 3)], version = 700,
                      records = ex_records tok, objects = ex_objects \<rparr>"

definition ex_Body2 :: acis_class where
  "ex_Body2 = \<lparr> cls_name = ''Body2'', cls_bases = [''Body'', ''AcisEntity''],
                 cls_type = ''body'', cls_parse = cls_parse Body \<rparr>"

definition ex_memo1 :: "'tok \<Rightarrow> 'tok loader" where
  "ex_memo1 tok = \<lparr> entities = [(3, 0)], version = 700, records = ex_records tok,
                     objects = [new_entity AcisEntity] \<rparr>"

definition ex_memo2 :: "'tok \<Rightarrow> 'tok loader" where
  "ex_memo2 tok = \<lparr> entities = [(3, 0), (1, 1)], version = 700, records = ex_records tok,
                     objects = [new_entity AcisEntity, new_entity Body] \<rparr>"

definition ex_memo3 :: "'tok \<Rightarrow> 'tok loader" where
  "ex_memo3 tok = \<lparr> entities = [(3, 0), (1, 1), (2, 2), (4, 3)], version = 700,
                     records = ex_records tok,
                     objects =
       [ \<lparr> ent_cls = AcisEntity, ent_id = None, ent_attributes = None, ent_refs = [] \<rparr>,
         \<lparr> ent_cls = Body, ent_id = Some 10, ent_attributes = None, ent_refs = [] \<rparr>,
         \<lparr> ent_cls = Edge, ent_id = Some 11, ent_attributes = Some 2, ent_refs = [0] \<rparr>,
         \<lparr> ent_cls = AcisEntity, ent_id = Some 12, ent_attributes = None, ent_refs = [] \<rparr> ] \<rparr>"

definition ex_truncated :: "'tok raw_entity" where
  "ex_truncated = \<lparr> rec_uid = 2, rec_name = ''edge'', rec_id = 11, rec_attributes = NullPtr,
                     rec_data = [] \<rparr>"

definition ex_trunc_builder :: "'tok builder" where
  "ex_trunc_builder = \<lparr> header_version = 700,
                         builder_entities = [ex_body, ex_truncated, ex_unknown] \<rparr>"

definition ex_trunc1 :: "'tok loader" where
  "ex_trunc1 = \<lparr> entities = [(1, 0)], version = 700,
                  records = [ex_body, ex_truncated, ex_unknown],
                  objects = [\<lparr> ent_cls = Body, ent_id = Some 10, ent_attributes = None,
                               ent_refs = [] \<rparr>] \<rparr>"

definition ex_trunc2 :: "'tok loader" where
  "ex_trunc2 = \<lparr> entities = [(1, 0), (2, 1)], version = 700,
                  records = [ex_body, ex_truncated, ex_unknown],
                  objects = [\<lparr> ent_cls = Body, ent_id = Some 10, ent_attributes = None,
                               ent_refs = [] \<rparr>, new_entity Edge] \<rparr>"

subsection \<open>Streams whose references carry the records' own names\<close>

text \<open>\<open>ENTITY_TYPES.get(entity_type, AcisEntity)\<close>.\<close>

definition lookup_cls :: "registry \<Rightarrow> string \<Rightarrow> acis_class" where
  "lookup_cls ENTITY_TYPES entity_type =
     (case ENTITY_TYPES entity_type of Some cls \<Rightarrow> cls | None \<Rightarrow> AcisEntity)"

text \<open>
  A factory call passes \<open>id(record)\<close> and \<open>record.name\<close> of one record object, so
  every identity comes with one name, \<open>nm uid\<close>: the records of the stream carry it,
  and so do the calls their \<open>parse\<close> methods make.
\<close>

definition names_agree ::
  "(nat \<Rightarrow> string) \<Rightarrow> registry \<Rightarrow> ('tok list \<Rightarrow> int \<Rightarrow> data_parser) \<Rightarrow> int
     \<Rightarrow> 'tok raw_entity list \<Rightarrow> bool" where
  "names_agree nm reg mk v rs \<longleftrightarrow>
     (\<forall>r \<in> set rs. rec_name r = nm (rec_uid r) \<and>
        (\<forall>calls. cls_parse (lookup_cls reg (rec_name r)) (mk (rec_data r) v) = Inr calls \<longrightarrow>
           (\<forall>c \<in> set calls. snd c = nm (fst c))))"

text \<open>Every record of a registered type has data its class can parse.\<close>

definition decodes ::
  "registry \<Rightarrow> ('tok list \<Rightarrow> int \<Rightarrow> data_parser) \<Rightarrow> int \<Rightarrow> 'tok raw_entity list \<Rightarrow> bool" where
  "decodes reg mk v rs \<longleftrightarrow>
     (\<forall>r \<in> set rs. \<forall>cls. reg (rec_name r) = Some cls \<longrightarrow>
        (\<exists>calls. cls_parse cls (mk (rec_data r) v) = Inr calls))"

text \<open>Every memoized entity is of the class its record's name is registered for.\<close>

definition typed :: "(nat \<Rightarrow> string) \<Rightarrow> registry \<Rightarrow> 'tok loader \<Rightarrow> bool" where
  "typed nm reg L \<longleftrightarrow>
     (\<forall>uid e. map_of (entities L) uid = Some e \<longrightarrow>
        ent_cls (objects L ! e) = lookup_cls reg (nm uid) \<and>
        (reg (nm uid) = None \<longrightarrow> ent_refs (objects L ! e) = []))"

text \<open>
  The entity of each record of an unregistered type is a plain \<open>AcisEntity\<close> that
  holds the record's \<open>id\<close>, the \<open>attributes\<close> link the loop gave it and nothing
  else, and is not among the bodies.
\<close>

definition placeholders :: "registry \<Rightarrow> 'tok raw_entity list \<Rightarrow> 'tok loader \<Rightarrow> bool" where
  "placeholders reg rs L \<longleftrightarrow>
     (\<forall>r \<in> set rs. reg (rec_name r) = None \<longrightarrow>
        (\<exists>e. map_of (entities L) (rec_uid r) = Some e \<and> e < length (objects L) \<and>
             objects L ! e =
               \<lparr> ent_cls = AcisEntity, ent_id = Some (rec_id r),
                  ent_attributes = (if is_null_ptr (rec_attributes r) then None else Some e),
                  ent_refs = [] \<rparr> \<and>
             e \<notin> set (bodies L)))"

text \<open>
  The entity of each record whose type is registered for \<open>Body\<close> or a subclass of it
  is among the bodies and holds the record's \<open>id\<close>.
\<close>

definition bodies_returned :: "registry \<Rightarrow> 'tok raw_entity list \<Rightarrow> 'tok loader \<Rightarrow> bool" where
  "bodies_returned reg rs L \<longleftrightarrow>
     (\<forall>r \<in> set rs. \<forall>cls. reg (rec_name r) = Some cls \<and>
          cls_name Body \<in> set (cls_name cls # cls_bases cls) \<longrightarrow>
        (\<exists>e. map_of (entities L) (rec_uid r) = Some e \<and> e \<in> set (bodies L) \<and>
             ent_id (objects L ! e) = Some (rec_id r)))"

definition ex_nm :: "nat \<Rightarrow> string" where
  "ex_nm uid = (if uid = 1 then ''body'' else if uid = 2 then ''edge''
                else if uid = 3 then ''vertex'' else ''unknown-xyz'')"

subsection \<open>The same stream in both encodings\<close>

text \<open>
  The record objects of two tokenizer runs are different objects, so their
  identities differ: \<open>f\<close> maps the identity of a record of the binary stream to the
  identity of its counterpart in the text stream.
\<close>

definition rename_calls :: "(nat \<Rightarrow> nat) \<Rightarrow> (nat \<times> string) list \<Rightarrow> (nat \<times> string) list" where
  "rename_calls f calls = map (\<lambda>c. (f (fst c), snd c)) calls"

text \<open>
  Two records carry the same content: the same name, \<open>id\<close> and attributes pointer,
  and field data on which every class an entity can have (the registered ones and
  \<open>AcisEntity\<close>) parses alike: the same error, or the same factory calls.
\<close>

definition equivalent_records ::
  "(nat \<Rightarrow> nat) \<Rightarrow> registry \<Rightarrow> int \<Rightarrow> sab_token raw_entity \<Rightarrow> sat_token raw_entity \<Rightarrow> bool" where
  "equivalent_records f reg v rb rt \<longleftrightarrow>
     rec_uid rt = f (rec_uid rb) \<and> rec_name rt = rec_name rb \<and> rec_id rt = rec_id rb \<and>
     rec_attributes rt = (case rec_attributes rb of NullPtr \<Rightarrow> NullPtr | Ptr u nm \<Rightarrow> Ptr (f u) nm) \<and>
     (\<forall>cls \<in> insert AcisEntity (ran reg).
        cls_parse cls (SatDataParser (rec_data rt) v) =
          (case cls_parse cls (SabDataParser (rec_data rb) v) of
             Inl err \<Rightarrow> Inl err | Inr calls \<Rightarrow> Inr (rename_calls f calls)))"

text \<open>Two loaders hold the same objects under corresponding identities.\<close>

definition same_graph :: "(nat \<Rightarrow> nat) \<Rightarrow> 'a loader \<Rightarrow> 'b loader \<Rightarrow> bool" where
  "same_graph f Lb Lt \<longleftrightarrow>
     entities Lt = map (\<lambda>p. (f (fst p), snd p)) (entities Lb) \<and>
     objects Lt = objects Lb \<and> version Lt = version Lb"

definition registered_classes :: "registry \<Rightarrow> 'tok loader \<Rightarrow> bool" where
  "registered_classes reg L \<longleftrightarrow>
     (\<forall>obj \<in> set (objects L). ent_cls obj \<in> insert AcisEntity (ran reg))"

text \<open>The text stream's identities: 3 stays, every other identity is shifted by 10.\<close>

definition ex_rename :: "nat \<Rightarrow> nat" where
  "ex_rename uid = (if uid = 3 then 3 else uid + 10)"

definition ex_text_records :: "sat_token raw_entity list" where
  "ex_text_records =
     [ \<lparr> rec_uid = 11, rec_name = ''body'', rec_id = 10, rec_attributes = NullPtr,
          rec_data = [] \<rparr>,
       \<lparr> rec_uid = 12, rec_name = ''edge'', rec_id = 11, rec_attributes = Ptr 11 ''body'',
          rec_data = [ex_sat_token] \<rparr>,
       \<lparr> rec_uid = 14, rec_name = ''unknown-xyz'', rec_id = 12, rec_attributes = NullPtr,
          rec_data = [] \<rparr> ]"

section \<open>Properties\<close>

subsection \<open>The loops, the memo table and what the loader maintains\<close>

lemma SabLoader_loop_eq: "SabLoader_loop reg rs L = load_records reg SabDataParser rs L"
  by (induction rs arbitrary: L) (auto simp: load_record_def Let_def split: prod.splits sum.splits)

lemma SatLoader_loop_eq: "SatLoader_loop reg rs L = load_records reg SatDataParser rs L"
  by (induction rs arbitrary: L) (auto simp: load_record_def Let_def split: prod.splits sum.splits)

lemma get_entity_cached:
  "map_of (entities L) uid = Some e \<Longrightarrow> get_entity reg uid ty L = (e, L)"
  by (simp add: get_entity_def)

lemma get_entity_lookup:
  "get_entity reg uid ty L = (e, L') \<Longrightarrow> map_of (entities L') uid = Some e"
  by (auto simp: get_entity_def Let_def map_add_def split: option.splits)

lemma get_entity_fields:
  "get_entity reg uid ty L = (e, L') \<Longrightarrow> version L' = version L \<and> records L' = records L"
  by (auto simp: get_entity_def Let_def split: option.splits)

lemma wf_loader_lookup:
  "wf_loader L \<Longrightarrow> map_of (entities L) uid = Some e \<Longrightarrow> e < length (objects L)"
proof -
  assume wf: "wf_loader L" and m: "map_of (entities L) uid = Some e"
  from m have "(uid, e) \<in> set (entities L)" by (rule map_of_SomeD)
  then have "e \<in> set (map snd (entities L))" by force
  with wf show ?thesis by (simp add: wf_loader_def)
qed

lemma wf_loader_inj:
  assumes "wf_loader L" "map_of (entities L) u = Some e" "map_of (entities L) u' = Some e"
  shows "u = u'"
proof -
  from assms(1) have d: "distinct (map snd (entities L))" by (simp add: wf_loader_def)
  from assms(2,3) have "(u, e) \<in> set (entities L)" "(u', e) \<in> set (entities L)"
    by (auto dest: map_of_SomeD)
  with d show ?thesis by (metis distinct_map inj_on_def snd_conv fst_conv)
qed

lemma get_entity_wf:
  "wf_loader L \<Longrightarrow> get_entity reg uid ty L = (e, L') \<Longrightarrow> wf_loader L'"
  by (auto simp: get_entity_def Let_def wf_loader_def map_of_eq_None_iff split: option.splits)

lemma assigned_id_None: "assigned_id ds uid = None \<longleftrightarrow> uid \<notin> rec_uid ` set ds"
  by (force simp: assigned_id_def map_of_eq_None_iff)

lemma assigned_id_snoc:
  "assigned_id (ds @ [r]) uid = (if uid = rec_uid r then Some (rec_id r) else assigned_id ds uid)"
  by (simp add: assigned_id_def)

lemma assigned_attributes_snoc:
  "assigned_attributes (ds @ [r]) uid e =
     (if uid = rec_uid r \<and> \<not> is_null_ptr (rec_attributes r) then Some e
      else assigned_attributes ds uid e)"
  by (auto simp: assigned_attributes_def)

lemma loaded_get_entity:
  assumes "loaded ds L" "get_entity reg uid ty L = (e, L')"
  shows "loaded ds L'"
proof (cases "map_of (entities L) uid")
  case (Some a)
  with assms show ?thesis by (simp add: get_entity_def)
next
  case None
  define c where "c = (case reg ty of Some cls \<Rightarrow> cls | None \<Rightarrow> AcisEntity)"
  from None assms(2) have L': "L' = L\<lparr>objects := objects L @ [new_entity c],
      entities := entities L @ [(uid, length (objects L))]\<rparr>"
    by (auto simp: get_entity_def Let_def c_def)
  from assms have wf: "wf_loader L" "wf_loader L'"
    by (auto simp: loaded_def dest: get_entity_wf)
  from assms(1) None have nds: "uid \<notin> rec_uid ` set ds"
    by (auto simp: loaded_def)
  have "ent_id (objects L' ! a) = assigned_id ds k \<and>
        ent_attributes (objects L' ! a) = assigned_attributes ds k a"
    if m: "map_of (entities L') k = Some a" for k a
  proof (cases "map_of (entities L) k")
    case (Some b)
    with m have "a = b" by (simp add: L' map_add_def)
    with Some wf(1) have "a < length (objects L)" by (auto dest: wf_loader_lookup)
    with Some \<open>a = b\<close> assms(1) show ?thesis
      by (simp add: L' nth_append loaded_def)
  next
    case None2: None
    with m have ka: "k = uid" "a = length (objects L)"
      by (auto simp: L' map_add_def split: if_splits)
    with nds show ?thesis
      using assigned_id_None[of ds uid]
      by (auto simp: L' new_entity_def assigned_attributes_def)
  qed
  moreover have "\<forall>r \<in> set ds. map_of (entities L') (rec_uid r) \<noteq> None"
    using assms(1) by (auto simp: loaded_def L' map_add_def split: option.splits)
  ultimately show ?thesis using wf(2) by (simp add: loaded_def)
qed

lemma loaded_factory_calls:
  "loaded ds L \<Longrightarrow> factory_calls reg calls L = (es, L') \<Longrightarrow> loaded ds L'"
proof (induction calls arbitrary: L es)
  case Nil
  then show ?case by simp
next
  case (Cons c calls)
  obtain uid ty where c: "c = (uid, ty)" by (cases c)
  obtain e L1 where g: "get_entity reg uid ty L = (e, L1)" by (cases "get_entity reg uid ty L")
  obtain es' L2 where f: "factory_calls reg calls L1 = (es', L2)"
    by (cases "factory_calls reg calls L1")
  from Cons.prems(2) c g f have "L' = L2" by simp
  moreover from Cons.prems(1) g have "loaded ds L1" by (rule loaded_get_entity)
  ultimately show ?case using Cons.IH f by simp
qed

lemma loaded_set_refs:
  assumes "loaded ds L"
  shows "loaded ds (L\<lparr>objects := (objects L)[e := (objects L ! e)\<lparr>ent_refs := es\<rparr>]\<rparr>)"
proof -
  have "ent_id ((objects L)[e := (objects L ! e)\<lparr>ent_refs := es\<rparr>] ! a) = ent_id (objects L ! a) \<and>
        ent_attributes ((objects L)[e := (objects L ! e)\<lparr>ent_refs := es\<rparr>] ! a)
          = ent_attributes (objects L ! a)" for a
    by (cases "e < length (objects L)") (simp_all add: nth_list_update list_update_beyond)
  then have "\<forall>uid a. map_of (entities L) uid = Some a \<longrightarrow>
      ent_id ((objects L)[e := (objects L ! e)\<lparr>ent_refs := es\<rparr>] ! a) = assigned_id ds uid \<and>
      ent_attributes ((objects L)[e := (objects L ! e)\<lparr>ent_refs := es\<rparr>] ! a)
        = assigned_attributes ds uid a"
    using assms unfolding loaded_def by simp
  moreover have "wf_loader (L\<lparr>objects := (objects L)[e := (objects L ! e)\<lparr>ent_refs := es\<rparr>]\<rparr>)"
    using assms by (simp add: loaded_def wf_loader_def)
  moreover have "\<forall>r \<in> set ds. map_of (entities L) (rec_uid r) \<noteq> None"
    using assms unfolding loaded_def by blast
  ultimately show ?thesis unfolding loaded_def by simp
qed

lemma loaded_assign:
  assumes "loaded ds L" "map_of (entities L) (rec_uid r) = Some e"
  shows "loaded (ds @ [r])
           (if is_null_ptr (rec_attributes r) then set_id e (rec_id r) L
            else set_attributes e e (set_id e (rec_id r) L))"
    (is "loaded _ ?L'")
proof -
  from assms have wf: "wf_loader L" and e: "e < length (objects L)"
    by (auto simp: loaded_def dest: wf_loader_lookup)
  have ents: "entities ?L' = entities L" by (simp add: set_id_def set_attributes_def)
  have len: "length (objects ?L') = length (objects L)" by (simp add: set_id_def set_attributes_def)
  have "ent_id (objects ?L' ! a) = assigned_id (ds @ [r]) k \<and>
        ent_attributes (objects ?L' ! a) = assigned_attributes (ds @ [r]) k a"
    if m: "map_of (entities L) k = Some a" for k a
  proof (cases "k = rec_uid r")
    case True
    with m assms(2) have "a = e" by simp
    with True e m assms(1) show ?thesis
      by (simp add: set_id_def set_attributes_def assigned_id_snoc assigned_attributes_snoc loaded_def)
  next
    case False
    with m assms(2) wf have "a \<noteq> e" by (auto dest: wf_loader_inj)
    with False m assms(1) show ?thesis
      by (simp add: set_id_def set_attributes_def assigned_id_snoc assigned_attributes_snoc loaded_def)
  qed
  moreover have "\<forall>r' \<in> set (ds @ [r]). map_of (entities L) (rec_uid r') \<noteq> None"
    using assms by (auto simp: loaded_def)
  moreover have "wf_loader ?L'" using wf by (simp add: wf_loader_def set_id_def set_attributes_def)
  ultimately show ?thesis unfolding loaded_def ents by blast
qed

lemma set_fields [simp]:
  "entities (set_id e i L) = entities L" "version (set_id e i L) = version L"
  "records (set_id e i L) = records L"
  "entities (set_attributes e a L) = entities L" "version (set_attributes e a L) = version L"
  "records (set_attributes e a L) = records L"
  by (simp_all add: set_id_def set_attributes_def)

lemma load_record_unfold:
  "load_record reg mk r L =
     (let (e, L1) = get_entity reg (rec_uid r) (rec_name r) L
      in parse reg e (mk (rec_data r) (version L))
           (if is_null_ptr (rec_attributes r) then set_id e (rec_id r) L1
            else set_attributes e e (set_id e (rec_id r) L1)))"
proof -
  obtain e L1 where g: "get_entity reg (rec_uid r) (rec_name r) L = (e, L1)"
    by (cases "get_entity reg (rec_uid r) (rec_name r) L")
  then have "map_of (entities (set_id e (rec_id r) L1)) (rec_uid r) = Some e"
    by (simp add: get_entity_lookup)
  then have "get_entity reg (rec_uid r) (rec_name r) (set_id e (rec_id r) L1)
               = (e, set_id e (rec_id r) L1)"
    by (rule get_entity_cached)
  with g get_entity_fields[OF g] show ?thesis
    by (simp add: load_record_def Let_def)
qed

lemma parse_loaded:
  assumes "loaded ds L" "parse reg e args L = Inr L'"
  shows "loaded ds L'"
proof -
  from assms(2) obtain calls where c: "cls_parse (ent_cls (objects L ! e)) args = Inr calls"
    by (auto simp: parse_def split: sum.splits)
  obtain es L1 where f: "factory_calls reg calls L = (es, L1)"
    by (cases "factory_calls reg calls L")
  from assms(2) c f have "L' = L1\<lparr>objects := (objects L1)[e := (objects L1 ! e)\<lparr>ent_refs := es\<rparr>]\<rparr>"
    by (simp add: parse_def)
  moreover from assms(1) f have "loaded ds L1" by (rule loaded_factory_calls)
  ultimately show ?thesis by (simp add: loaded_set_refs)
qed

lemma load_record_loaded:
  assumes "loaded ds L" "load_record reg mk r L = Inr L'"
  shows "loaded (ds @ [r]) L'"
proof -
  obtain e L1 where g: "get_entity reg (rec_uid r) (rec_name r) L = (e, L1)"
    by (cases "get_entity reg (rec_uid r) (rec_name r) L")
  from assms(1) g have "loaded ds L1" by (rule loaded_get_entity)
  moreover from g have "map_of (entities L1) (rec_uid r) = Some e" by (rule get_entity_lookup)
  ultimately have "loaded (ds @ [r])
      (if is_null_ptr (rec_attributes r) then set_id e (rec_id r) L1
       else set_attributes e e (set_id e (rec_id r) L1))"
    by (rule loaded_assign)
  moreover from assms(2) g have "parse reg e (mk (rec_data r) (version L))
      (if is_null_ptr (rec_attributes r) then set_id e (rec_id r) L1
       else set_attributes e e (set_id e (rec_id r) L1)) = Inr L'"
    by (simp add: load_record_unfold)
  ultimately show ?thesis by (rule parse_loaded)
qed

lemma load_records_loaded:
  "loaded ds L \<Longrightarrow> load_records reg mk rs L = Inr L' \<Longrightarrow> loaded (ds @ rs) L'"
proof (induction rs arbitrary: ds L)
  case Nil
  then show ?case by simp
next
  case (Cons r rs)
  from Cons.prems(2) obtain L1 where s: "load_record reg mk r L = Inr L1"
    and rest: "load_records reg mk rs L1 = Inr L'"
    by (auto split: sum.splits)
  from Cons.prems(1) s have "loaded (ds @ [r]) L1" by (rule load_record_loaded)
  from Cons.IH[OF this rest] show ?case by simp
qed

lemma loaded_init: "loaded [] (Loader_init v rs)"
  by (simp add: loaded_def wf_loader_def Loader_init_def)

lemma load_records_from_init:
  "load_records reg mk rs (Loader_init v rs') = Inr L \<Longrightarrow> loaded rs L"
  using load_records_loaded[OF loaded_init, of reg mk rs v rs' L] by simp

lemma SabLoader_load_entities_init:
  "SabLoader_load_entities reg (Loader_init v rs) = load_records reg SabDataParser rs (Loader_init v rs)"
  by (simp add: SabLoader_load_entities_def SabLoader_loop_eq Loader_init_def)

lemma SatLoader_load_entities_init:
  "SatLoader_load_entities reg (Loader_init v rs) = load_records reg SatDataParser rs (Loader_init v rs)"
  by (simp add: SatLoader_load_entities_def SatLoader_loop_eq Loader_init_def)

lemma loaded_null_attributes:
  assumes "loaded rs L" "r \<in> set rs" "is_null_ptr (rec_attributes r)" "distinct (map rec_uid rs)"
  shows "\<exists>e. map_of (entities L) (rec_uid r) = Some e \<and> e < length (objects L) \<and>
             ent_attributes (objects L ! e) = None"
proof -
  from assms(1,2) obtain e where m: "map_of (entities L) (rec_uid r) = Some e"
    by (auto simp: loaded_def)
  from assms(1) m have lt: "e < length (objects L)"
    by (auto simp: loaded_def dest: wf_loader_lookup)
  from assms(4) have "inj_on rec_uid (set rs)" by (simp add: distinct_map)
  with assms(2) have "\<forall>r' \<in> set rs. rec_uid r' = rec_uid r \<longrightarrow> r' = r"
    by (auto dest: inj_onD)
  with assms(3) have "assigned_attributes rs (rec_uid r) e = None"
    by (auto simp: assigned_attributes_def)
  with assms(1) m lt show ?thesis by (auto simp: loaded_def)
qed

lemma loaded_id_unset:
  assumes "loaded rs L" "map_of (entities L) uid = Some e" "uid \<notin> rec_uid ` set rs"
  shows "ent_id (objects L ! e) = None"
  using assms assigned_id_None[of rs uid] by (auto simp: loaded_def)

lemma wf_loader_bodies:
  "wf_loader L \<Longrightarrow> bodies L = filter (\<lambda>e. isinstance (objects L ! e) Body) [0..<length (objects L)]"
  by (simp add: wf_loader_def bodies_def)

lemma loaded_bodies:
  assumes "loaded rs L"
  shows "map snd (entities L) = [0..<length (objects L)] \<and>
      bodies L = filter (\<lambda>e. isinstance (objects L ! e) Body) [0..<length (objects L)] \<and>
      set (bodies L) = {e. e < length (objects L) \<and> isinstance (objects L ! e) Body} \<and>
      distinct (bodies L)"
proof -
  from assms have wf: "wf_loader L" by (simp add: loaded_def)
  then have "map snd (entities L) = [0..<length (objects L)]" by (simp add: wf_loader_def)
  with wf show ?thesis by (auto simp: wf_loader_bodies)
qed

lemma get_entity_mono:
  "map_of (entities L) u = Some a \<Longrightarrow> get_entity reg uid ty L = (e, L') \<Longrightarrow>
     map_of (entities L') u = Some a"
  by (auto simp: get_entity_def Let_def map_add_def split: option.splits)

lemma factory_calls_mono:
  "map_of (entities L) u = Some a \<Longrightarrow> factory_calls reg calls L = (es, L') \<Longrightarrow>
     map_of (entities L') u = Some a"
proof (induction calls arbitrary: L es)
  case Nil
  then show ?case by simp
next
  case (Cons c calls)
  obtain uid ty where c: "c = (uid, ty)" by (cases c)
  obtain e L1 where g: "get_entity reg uid ty L = (e, L1)" by (cases "get_entity reg uid ty L")
  obtain es' L2 where f: "factory_calls reg calls L1 = (es', L2)"
    by (cases "factory_calls reg calls L1")
  from Cons.prems(2) c g f have "L' = L2" by simp
  moreover from Cons.prems(1) g have "map_of (entities L1) u = Some a" by (rule get_entity_mono)
  ultimately show ?case using Cons.IH f by simp
qed

lemma parse_mono:
  assumes "map_of (entities L) u = Some a" "parse reg e args L = Inr L'"
  shows "map_of (entities L') u = Some a"
proof -
  from assms(2) obtain calls where c: "cls_parse (ent_cls (objects L ! e)) args = Inr calls"
    by (auto simp: parse_def split: sum.splits)
  obtain es L1 where f: "factory_calls reg calls L = (es, L1)"
    by (cases "factory_calls reg calls L")
  from assms(2) c f have "entities L' = entities L1"
    by (auto simp: parse_def)
  with factory_calls_mono[OF assms(1) f] show ?thesis by simp
qed

lemma load_record_mono:
  assumes "map_of (entities L) u = Some a" "load_record reg mk r L = Inr L'"
  shows "map_of (entities L') u = Some a"
proof -
  obtain e L1 where g: "get_entity reg (rec_uid r) (rec_name r) L = (e, L1)"
    by (cases "get_entity reg (rec_uid r) (rec_name r) L")
  from assms(1) g have "map_of (entities L1) u = Some a" by (rule get_entity_mono)
  then have "map_of (entities (if is_null_ptr (rec_attributes r) then set_id e (rec_id r) L1
       else set_attributes e e (set_id e (rec_id r) L1))) u = Some a"
    by simp
  moreover from assms(2) g have "parse reg e (mk (rec_data r) (version L))
      (if is_null_ptr (rec_attributes r) then set_id e (rec_id r) L1
       else set_attributes e e (set_id e (rec_id r) L1)) = Inr L'"
    by (simp add: load_record_unfold)
  ultimately show ?thesis by (rule parse_mono)
qed

lemma load_records_mono:
  "map_of (entities L) u = Some a \<Longrightarrow> load_records reg mk rs L = Inr L' \<Longrightarrow>
     map_of (entities L') u = Some a"
proof (induction rs arbitrary: L)
  case Nil
  then show ?case by simp
next
  case (Cons r rs)
  from Cons.prems(2) obtain L1 where s: "load_record reg mk r L = Inr L1"
    and rest: "load_records reg mk rs L1 = Inr L'"
    by (auto split: sum.splits)
  from Cons.prems(1) s have "map_of (entities L1) u = Some a" by (rule load_record_mono)
  from Cons.IH[OF this rest] show ?case .
qed

lemma loaded_wf: "loaded ds L \<Longrightarrow> wf_loader L"
  by (simp add: loaded_def)

lemma load_records_append:
  "load_records reg mk (xs @ ys) L =
     (case load_records reg mk xs L of Inl err \<Rightarrow> Inl err | Inr L' \<Rightarrow> load_records reg mk ys L')"
  by (induction xs arbitrary: L) (auto split: sum.splits)

lemma factory_calls_fields:
  "factory_calls reg calls L = (es, L') \<Longrightarrow> version L' = version L \<and> records L' = records L"
proof (induction calls arbitrary: L es)
  case Nil
  then show ?case by simp
next
  case (Cons c calls)
  obtain uid ty where c: "c = (uid, ty)" by (cases c)
  obtain e L1 where g: "get_entity reg uid ty L = (e, L1)" by (cases "get_entity reg uid ty L")
  obtain es' L2 where f: "factory_calls reg calls L1 = (es', L2)"
    by (cases "factory_calls reg calls L1")
  from Cons.prems c g f have "L' = L2" by simp
  with Cons.IH f get_entity_fields[OF g] show ?case by simp
qed

lemma parse_fields:
  assumes "parse reg e args L = Inr L'"
  shows "version L' = version L \<and> records L' = records L"
proof -
  from assms obtain calls where c: "cls_parse (ent_cls (objects L ! e)) args = Inr calls"
    by (auto simp: parse_def split: sum.splits)
  obtain es L1 where f: "factory_calls reg calls L = (es, L1)"
    by (cases "factory_calls reg calls L")
  from assms c f have "version L' = version L1" "records L' = records L1"
    by (auto simp: parse_def)
  with factory_calls_fields[OF f] show ?thesis by simp
qed

lemma load_record_fields:
  assumes "load_record reg mk r L = Inr L'"
  shows "version L' = version L \<and> records L' = records L"
proof -
  obtain e L1 where g: "get_entity reg (rec_uid r) (rec_name r) L = (e, L1)"
    by (cases "get_entity reg (rec_uid r) (rec_name r) L")
  from assms g have "parse reg e (mk (rec_data r) (version L))
      (if is_null_ptr (rec_attributes r) then set_id e (rec_id r) L1
       else set_attributes e e (set_id e (rec_id r) L1)) = Inr L'"
    by (simp add: load_record_unfold)
  from parse_fields[OF this] get_entity_fields[OF g] show ?thesis by simp
qed

lemma load_records_fields:
  "load_records reg mk rs L = Inr L' \<Longrightarrow> version L' = version L \<and> records L' = records L"
proof (induction rs arbitrary: L)
  case Nil
  then show ?case by simp
next
  case (Cons r rs)
  from Cons.prems obtain L1 where s: "load_record reg mk r L = Inr L1"
    and rest: "load_records reg mk rs L1 = Inr L'"
    by (auto split: sum.splits)
  from Cons.IH[OF rest] load_record_fields[OF s] show ?case by simp
qed

lemma ent_cls_assign:
  "ent_cls (objects (set_id e i L) ! a) = ent_cls (objects L ! a)"
  "ent_cls (objects (set_attributes e b L) ! a) = ent_cls (objects L ! a)"
  by (cases "e < length (objects L)";
      simp add: set_id_def set_attributes_def nth_list_update list_update_beyond)+

lemma load_record_raises:
  assumes "get_entity reg (rec_uid r) (rec_name r) L = (e, L1)"
    and "cls_parse (ent_cls (objects L1 ! e)) (mk (rec_data r) (version L)) = Inl err"
  shows "load_record reg mk r L = Inl err"
  using assms by (simp add: load_record_unfold parse_def ent_cls_assign)

lemma load_records_raises:
  assumes "load_records reg mk pre L0 = Inr L"
    and "get_entity reg (rec_uid r) (rec_name r) L = (e, L1)"
    and "cls_parse (ent_cls (objects L1 ! e)) (mk (rec_data r) (version L0)) = Inl err"
  shows "load_records reg mk (pre @ r # post) L0 = Inl err"
proof -
  from assms(1) have "version L = version L0" by (simp add: load_records_fields)
  with assms(2,3) have "load_record reg mk r L = Inl err" by (simp add: load_record_raises)
  with assms(1) show ?thesis by (simp add: load_records_append)
qed

lemma get_entity_new:
  "map_of (entities L) uid = None \<Longrightarrow>
   get_entity reg uid ty L =
     (length (objects L),
      L\<lparr> objects := objects L @ [new_entity (lookup_cls reg ty)],
         entities := entities L @ [(uid, length (objects L))] \<rparr>)"
  by (simp add: get_entity_def Let_def lookup_cls_def)

lemma typed_get_entity:
  assumes "typed nm reg L" "wf_loader L" "ty = nm uid" "get_entity reg uid ty L = (e, L')"
  shows "typed nm reg L'"
proof (cases "map_of (entities L) uid")
  case (Some a)
  with assms show ?thesis by (simp add: get_entity_def)
next
  case None
  from assms(4) get_entity_new[OF None, of reg ty]
  have L': "L' = L\<lparr> objects := objects L @ [new_entity (lookup_cls reg ty)],
         entities := entities L @ [(uid, length (objects L))] \<rparr>"
    by auto
  have "ent_cls (objects L' ! a) = lookup_cls reg (nm k) \<and>
        (reg (nm k) = None \<longrightarrow> ent_refs (objects L' ! a) = [])"
    if m: "map_of (entities L') k = Some a" for k a
  proof (cases "map_of (entities L) k")
    case (Some b)
    with m have "a = b" by (simp add: L' map_add_def)
    with Some assms(2) have "a < length (objects L)" by (auto dest: wf_loader_lookup)
    with Some \<open>a = b\<close> assms(1) show ?thesis
      by (simp add: L' nth_append typed_def)
  next
    case None2: None
    with m have "k = uid" "a = length (objects L)"
      by (auto simp: L' map_add_def split: if_splits)
    with assms(3) show ?thesis by (simp add: L' new_entity_def)
  qed
  then show ?thesis unfolding typed_def by blast
qed

lemma typed_factory_calls:
  "typed nm reg L \<Longrightarrow> wf_loader L \<Longrightarrow> \<forall>c \<in> set calls. snd c = nm (fst c) \<Longrightarrow>
   factory_calls reg calls L = (es, L') \<Longrightarrow> typed nm reg L' \<and> wf_loader L'"
proof (induction calls arbitrary: L es)
  case Nil
  then show ?case by simp
next
  case (Cons c calls)
  obtain uid ty where c: "c = (uid, ty)" by (cases c)
  obtain e L1 where g: "get_entity reg uid ty L = (e, L1)" by (cases "get_entity reg uid ty L")
  obtain es' L2 where f: "factory_calls reg calls L1 = (es', L2)"
    by (cases "factory_calls reg calls L1")
  from Cons.prems(4) c g f have "L' = L2" by simp
  moreover from Cons.prems(3) c have "ty = nm uid" by simp
  with Cons.prems(1,2) g have "typed nm reg L1" by (auto intro: typed_get_entity)
  moreover from Cons.prems(2) g have "wf_loader L1" by (rule get_entity_wf)
  moreover from Cons.prems(3) have "\<forall>c \<in> set calls. snd c = nm (fst c)" by simp
  ultimately show ?case using Cons.IH f by simp
qed

lemma typed_assign:
  "typed nm reg L \<Longrightarrow> typed nm reg (set_id e i L)"
  "typed nm reg L \<Longrightarrow> typed nm reg (set_attributes e a L)"
proof -
  have "ent_cls (objects (set_id e i L) ! b) = ent_cls (objects L ! b) \<and>
        ent_refs (objects (set_id e i L) ! b) = ent_refs (objects L ! b)" for b
    by (cases "e < length (objects L)")
       (simp_all add: set_id_def nth_list_update list_update_beyond)
  then show "typed nm reg L \<Longrightarrow> typed nm reg (set_id e i L)"
    by (simp add: typed_def)
  have "ent_cls (objects (set_attributes e a L) ! b) = ent_cls (objects L ! b) \<and>
        ent_refs (objects (set_attributes e a L) ! b) = ent_refs (objects L ! b)" for b
    by (cases "e < length (objects L)")
       (simp_all add: set_attributes_def nth_list_update list_update_beyond)
  then show "typed nm reg L \<Longrightarrow> typed nm reg (set_attributes e a L)"
    by (simp add: typed_def)
qed

lemma cls_parse_AcisEntity: "cls_parse AcisEntity p = Inr []"
  by (simp add: AcisEntity_def)

lemma typed_parse:
  assumes t: "typed nm reg L" and wf: "wf_loader L"
    and m: "map_of (entities L) uid = Some e"
    and c: "cls_parse (lookup_cls reg (nm uid)) args = Inr calls"
    and n: "\<forall>c \<in> set calls. snd c = nm (fst c)"
  shows "\<exists>L'. parse reg e args L = Inr L' \<and> typed nm reg L'"
proof -
  from t m have cls: "ent_cls (objects L ! e) = lookup_cls reg (nm uid)" by (simp add: typed_def)
  obtain es L1 where f: "factory_calls reg calls L = (es, L1)"
    by (cases "factory_calls reg calls L")
  let ?L' = "L1\<lparr>objects := (objects L1)[e := (objects L1 ! e)\<lparr>ent_refs := es\<rparr>]\<rparr>"
  from cls c f have p: "parse reg e args L = Inr ?L'" by (simp add: parse_def)
  from t wf n f have t1: "typed nm reg L1" and wf1: "wf_loader L1"
    by (auto dest: typed_factory_calls)
  from m f have m1: "map_of (entities L1) uid = Some e" by (rule factory_calls_mono)
  with wf1 have lt: "e < length (objects L1)" by (rule wf_loader_lookup)
  have unreg: "es = []" if "reg (nm uid) = None"
  proof -
    from that c have "calls = []" by (simp add: lookup_cls_def cls_parse_AcisEntity)
    with f show ?thesis by simp
  qed
  have "ent_cls (objects ?L' ! a) = lookup_cls reg (nm k) \<and>
        (reg (nm k) = None \<longrightarrow> ent_refs (objects ?L' ! a) = [])"
    if mk: "map_of (entities ?L') k = Some a" for k a
  proof (cases "a = e")
    case True
    with mk m1 wf1 have "k = uid" by (auto dest: wf_loader_inj)
    with True lt t1 m1 unreg show ?thesis by (simp add: typed_def)
  next
    case False
    with mk t1 show ?thesis by (simp add: typed_def)
  qed
  then have "typed nm reg ?L'" unfolding typed_def by blast
  with p show ?thesis by blast
qed

lemma load_record_typed:
  assumes t: "typed nm reg L" and l: "loaded ds L"
    and nr: "rec_name r = nm (rec_uid r)"
    and nc: "\<forall>calls. cls_parse (lookup_cls reg (rec_name r)) (mk (rec_data r) (version L)) = Inr calls \<longrightarrow>
           (\<forall>c \<in> set calls. snd c = nm (fst c))"
    and d: "\<forall>cls. reg (rec_name r) = Some cls \<longrightarrow>
        (\<exists>calls. cls_parse cls (mk (rec_data r) (version L)) = Inr calls)"
  shows "\<exists>L'. load_record reg mk r L = Inr L' \<and> typed nm reg L'"
proof -
  obtain e L1 where g: "get_entity reg (rec_uid r) (rec_name r) L = (e, L1)"
    by (cases "get_entity reg (rec_uid r) (rec_name r) L")
  let ?L3 = "if is_null_ptr (rec_attributes r) then set_id e (rec_id r) L1
       else set_attributes e e (set_id e (rec_id r) L1)"
  from l have wf: "wf_loader L" by (rule loaded_wf)
  from t wf nr g have t1: "typed nm reg L1" by (rule typed_get_entity)
  then have t3: "typed nm reg ?L3" by (simp add: typed_assign)
  from wf g have "wf_loader L1" by (rule get_entity_wf)
  then have wf3: "wf_loader ?L3" by (simp add: wf_loader_def set_id_def set_attributes_def)
  from g have "map_of (entities L1) (rec_uid r) = Some e" by (rule get_entity_lookup)
  then have m3: "map_of (entities ?L3) (rec_uid r) = Some e" by simp
  obtain calls where c: "cls_parse (lookup_cls reg (nm (rec_uid r))) (mk (rec_data r) (version L)) = Inr calls"
  proof (cases "reg (rec_name r)")
    case None
    with nr that show ?thesis by (simp add: lookup_cls_def cls_parse_AcisEntity)
  next
    case (Some cls)
    with d nr that show ?thesis by (auto simp: lookup_cls_def)
  qed
  with nc nr have n: "\<forall>c \<in> set calls. snd c = nm (fst c)" by simp
  from typed_parse[OF t3 wf3 m3 c n] g show ?thesis by (simp add: load_record_unfold)
qed

lemma load_records_typed:
  "typed nm reg L \<Longrightarrow> loaded ds L \<Longrightarrow> names_agree nm reg mk (version L) rs \<Longrightarrow>
   decodes reg mk (version L) rs \<Longrightarrow>
   \<exists>L'. load_records reg mk rs L = Inr L' \<and> typed nm reg L'"
proof (induction rs arbitrary: L ds)
  case Nil
  then show ?case by simp
next
  case (Cons r rs)
  from Cons.prems(3) have nr: "rec_name r = nm (rec_uid r)"
    and nc: "\<forall>calls. cls_parse (lookup_cls reg (rec_name r)) (mk (rec_data r) (version L)) = Inr calls \<longrightarrow>
           (\<forall>c \<in> set calls. snd c = nm (fst c))"
    and nrest: "names_agree nm reg mk (version L) rs"
    by (simp_all add: names_agree_def)
  from Cons.prems(4) have d: "\<forall>cls. reg (rec_name r) = Some cls \<longrightarrow>
        (\<exists>calls. cls_parse cls (mk (rec_data r) (version L)) = Inr calls)"
    and drest: "decodes reg mk (version L) rs"
    by (simp_all add: decodes_def)
  from load_record_typed[where mk = mk, OF Cons.prems(1,2) nr nc d]
  obtain L1 where s: "load_record reg mk r L = Inr L1" and t1: "typed nm reg L1" by blast
  from Cons.prems(2) s have l1: "loaded (ds @ [r]) L1" by (rule load_record_loaded)
  from s have v: "version L1 = version L" by (simp add: load_record_fields)
  from Cons.IH[OF t1 l1] nrest drest v
  obtain L' where "load_records reg mk rs L1 = Inr L'" "typed nm reg L'" by auto
  with s show ?case by simp
qed

lemma typed_init: "typed nm reg (Loader_init v rs)"
  by (simp add: typed_def Loader_init_def)

lemma assigned_id_distinct:
  assumes "distinct (map rec_uid rs)" "r \<in> set rs"
  shows "assigned_id rs (rec_uid r) = Some (rec_id r)"
proof -
  have "map fst (map (\<lambda>r. (rec_uid r, rec_id r)) (rev rs)) = rev (map rec_uid rs)"
    by (simp add: rev_map comp_def)
  with assms(1) have "distinct (map fst (map (\<lambda>r. (rec_uid r, rec_id r)) (rev rs)))" by simp
  moreover from assms(2) have "(rec_uid r, rec_id r) \<in> set (map (\<lambda>r. (rec_uid r, rec_id r)) (rev rs))"
    by force
  ultimately show ?thesis unfolding assigned_id_def by (rule map_of_is_SomeI)
qed

lemma loaded_placeholders:
  assumes l: "loaded rs L" and t: "typed nm reg L"
    and n: "\<forall>r \<in> set rs. rec_name r = nm (rec_uid r)"
    and d: "distinct (map rec_uid rs)"
  shows "placeholders reg rs L"
  unfolding placeholders_def
proof (intro ballI impI)
  fix r assume r: "r \<in> set rs" and u: "reg (rec_name r) = None"
  from l r obtain e where m: "map_of (entities L) (rec_uid r) = Some e"
    by (auto simp: loaded_def)
  from l have wf: "wf_loader L" by (rule loaded_wf)
  from wf m have lt: "e < length (objects L)" by (rule wf_loader_lookup)
  from n r u have un: "reg (nm (rec_uid r)) = None" by simp
  with t m have c: "ent_cls (objects L ! e) = AcisEntity" and f: "ent_refs (objects L ! e) = []"
    by (simp_all add: typed_def lookup_cls_def)
  from l m d r have i: "ent_id (objects L ! e) = Some (rec_id r)"
    by (simp add: loaded_def assigned_id_distinct)
  from d have "inj_on rec_uid (set rs)" by (simp add: distinct_map)
  with r have "\<forall>r' \<in> set rs. rec_uid r' = rec_uid r \<longrightarrow> r' = r" by (auto dest: inj_onD)
  with r have "assigned_attributes rs (rec_uid r) e =
      (if is_null_ptr (rec_attributes r) then None else Some e)"
    by (auto simp: assigned_attributes_def)
  with l m have a: "ent_attributes (objects L ! e) =
      (if is_null_ptr (rec_attributes r) then None else Some e)"
    by (simp add: loaded_def)
  from c f i a have eq: "objects L ! e =
      \<lparr> ent_cls = AcisEntity, ent_id = Some (rec_id r),
         ent_attributes = (if is_null_ptr (rec_attributes r) then None else Some e),
         ent_refs = [] \<rparr>"
    by (cases "objects L ! e") simp
  from c have "\<not> isinstance (objects L ! e) Body"
    by (simp add: isinstance_def AcisEntity_def Body_def)
  with wf have "e \<notin> set (bodies L)" by (simp add: wf_loader_bodies)
  with m lt eq show "\<exists>e. map_of (entities L) (rec_uid r) = Some e \<and> e < length (objects L) \<and>
      objects L ! e =
        \<lparr> ent_cls = AcisEntity, ent_id = Some (rec_id r),
           ent_attributes = (if is_null_ptr (rec_attributes r) then None else Some e),
           ent_refs = [] \<rparr> \<and>
      e \<notin> set (bodies L)"
    by blast
qed

lemma loaded_bodies_returned:
  assumes l: "loaded rs L" and t: "typed nm reg L"
    and n: "\<forall>r \<in> set rs. rec_name r = nm (rec_uid r)"
    and d: "distinct (map rec_uid rs)"
  shows "bodies_returned reg rs L"
  unfolding bodies_returned_def
proof (intro ballI allI impI, elim conjE)
  fix r cls assume r: "r \<in> set rs" and u: "reg (rec_name r) = Some cls"
    and b: "cls_name Body \<in> set (cls_name cls # cls_bases cls)"
  from l r obtain e where m: "map_of (entities L) (rec_uid r) = Some e"
    by (auto simp: loaded_def)
  from l have wf: "wf_loader L" by (rule loaded_wf)
  from wf m have lt: "e < length (objects L)" by (rule wf_loader_lookup)
  from n r u have "reg (nm (rec_uid r)) = Some cls" by simp
  with t m have "ent_cls (objects L ! e) = cls" by (simp add: typed_def lookup_cls_def)
  with b have "isinstance (objects L ! e) Body" by (simp add: isinstance_def)
  with wf lt have "e \<in> set (bodies L)" by (simp add: wf_loader_bodies)
  moreover from l m d r have "ent_id (objects L ! e) = Some (rec_id r)"
    by (simp add: loaded_def assigned_id_distinct)
  ultimately show "\<exists>e. map_of (entities L) (rec_uid r) = Some e \<and> e \<in> set (bodies L) \<and>
      ent_id (objects L ! e) = Some (rec_id r)"
    using m by blast
qed

lemma load_records_unknown_types:
  assumes "names_agree nm reg mk v rs" "decodes reg mk v rs" "distinct (map rec_uid rs)"
  shows "\<exists>L. load_records reg mk rs (Loader_init v rs) = Inr L \<and>
             placeholders reg rs L \<and> bodies_returned reg rs L"
proof -
  have v: "version (Loader_init v rs) = v" by (simp add: Loader_init_def)
  from load_records_typed[OF typed_init loaded_init, of nm reg mk v rs rs] assms(1,2) v
  obtain L where s: "load_records reg mk rs (Loader_init v rs) = Inr L" and t: "typed nm reg L"
    by auto
  from s have l: "loaded rs L" by (rule load_records_from_init)
  from assms(1) have n: "\<forall>r \<in> set rs. rec_name r = nm (rec_uid r)" by (simp add: names_agree_def)
  from loaded_placeholders[OF l t n assms(3)] loaded_bodies_returned[OF l t n assms(3)] s
  show ?thesis by blast
qed

lemma map_of_rename:
  "inj f \<Longrightarrow> map_of (map (\<lambda>p. (f (fst p), snd p)) es) (f u) = map_of es u"
  by (induction es) (auto dest: injD)

lemma same_graph_get_entity:
  assumes "inj f" "same_graph f Lb Lt" "get_entity reg u ty Lb = (e, Lb')"
  shows "\<exists>Lt'. get_entity reg (f u) ty Lt = (e, Lt') \<and> same_graph f Lb' Lt'"
proof -
  from assms(1,2) have m: "map_of (entities Lt) (f u) = map_of (entities Lb) u"
    by (simp add: same_graph_def map_of_rename)
  show ?thesis
  proof (cases "map_of (entities Lb) u")
    case (Some a)
    with m assms(2,3) show ?thesis by (simp add: get_entity_def)
  next
    case None
    with m assms(2,3) show ?thesis
      by (auto simp: get_entity_def Let_def same_graph_def)
  qed
qed

lemma same_graph_factory_calls:
  "inj f \<Longrightarrow> same_graph f Lb Lt \<Longrightarrow> factory_calls reg calls Lb = (es, Lb') \<Longrightarrow>
   \<exists>Lt'. factory_calls reg (rename_calls f calls) Lt = (es, Lt') \<and> same_graph f Lb' Lt'"
proof (induction calls arbitrary: Lb Lt es Lb')
  case Nil
  then show ?case by (simp add: rename_calls_def)
next
  case (Cons c calls)
  obtain uid ty where c: "c = (uid, ty)" by (cases c)
  obtain e L1 where g: "get_entity reg uid ty Lb = (e, L1)" by (cases "get_entity reg uid ty Lb")
  obtain es' L2 where fc: "factory_calls reg calls L1 = (es', L2)"
    by (cases "factory_calls reg calls L1")
  from Cons.prems(3) c g fc have r: "es = e # es'" "Lb' = L2" by simp_all
  from same_graph_get_entity[OF Cons.prems(1,2) g]
  obtain Lt1 where gt: "get_entity reg (f uid) ty Lt = (e, Lt1)" and s1: "same_graph f L1 Lt1"
    by blast
  from Cons.IH[OF Cons.prems(1) s1 fc]
  obtain Lt2 where ft: "factory_calls reg (rename_calls f calls) Lt1 = (es', Lt2)"
    and s2: "same_graph f L2 Lt2" by blast
  from c gt ft have "factory_calls reg (rename_calls f (c # calls)) Lt = (e # es', Lt2)"
    by (simp add: rename_calls_def)
  with r s2 show ?case by blast
qed

lemma same_graph_assign:
  "same_graph f Lb Lt \<Longrightarrow> same_graph f (set_id e i Lb) (set_id e i Lt)"
  "same_graph f Lb Lt \<Longrightarrow> same_graph f (set_attributes e a Lb) (set_attributes e a Lt)"
  by (simp_all add: same_graph_def set_id_def set_attributes_def)

lemma same_graph_parse:
  assumes "inj f" "same_graph f Lb Lt"
    and "cls_parse (ent_cls (objects Lb ! e)) argst =
          (case cls_parse (ent_cls (objects Lb ! e)) argsb of
             Inl err \<Rightarrow> Inl err | Inr calls \<Rightarrow> Inr (rename_calls f calls))"
  shows "case parse reg e argsb Lb of
           Inl err \<Rightarrow> parse reg e argst Lt = Inl err
         | Inr Lb' \<Rightarrow> (\<exists>Lt'. parse reg e argst Lt = Inr Lt' \<and> same_graph f Lb' Lt')"
proof (cases "cls_parse (ent_cls (objects Lb ! e)) argsb")
  case (Inl err)
  with assms(2,3) show ?thesis by (simp add: parse_def same_graph_def)
next
  case (Inr calls)
  obtain es Lb1 where fb: "factory_calls reg calls Lb = (es, Lb1)"
    by (cases "factory_calls reg calls Lb")
  from same_graph_factory_calls[OF assms(1,2) fb]
  obtain Lt1 where ft: "factory_calls reg (rename_calls f calls) Lt = (es, Lt1)"
    and s1: "same_graph f Lb1 Lt1" by blast
  from assms(2) have o: "objects Lt = objects Lb" by (simp add: same_graph_def)
  from Inr fb have pb: "parse reg e argsb Lb =
      Inr (Lb1\<lparr>objects := (objects Lb1)[e := (objects Lb1 ! e)\<lparr>ent_refs := es\<rparr>]\<rparr>)"
    by (simp add: parse_def)
  from Inr assms(3) ft o have pt: "parse reg e argst Lt =
      Inr (Lt1\<lparr>objects := (objects Lt1)[e := (objects Lt1 ! e)\<lparr>ent_refs := es\<rparr>]\<rparr>)"
    by (simp add: parse_def)
  from s1 have "same_graph f (Lb1\<lparr>objects := (objects Lb1)[e := (objects Lb1 ! e)\<lparr>ent_refs := es\<rparr>]\<rparr>)
      (Lt1\<lparr>objects := (objects Lt1)[e := (objects Lt1 ! e)\<lparr>ent_refs := es\<rparr>]\<rparr>)"
    by (simp add: same_graph_def)
  with pb pt show ?thesis by simp
qed

lemma registered_get_entity:
  "registered_classes reg L \<Longrightarrow> get_entity reg u ty L = (e, L') \<Longrightarrow> registered_classes reg L'"
  by (auto simp: registered_classes_def get_entity_def Let_def new_entity_def ran_def
      split: option.splits)

lemma registered_factory_calls:
  "registered_classes reg L \<Longrightarrow> factory_calls reg calls L = (es, L') \<Longrightarrow>
   registered_classes reg L'"
proof (induction calls arbitrary: L es)
  case Nil
  then show ?case by simp
next
  case (Cons c calls)
  obtain uid ty where c: "c = (uid, ty)" by (cases c)
  obtain e L1 where g: "get_entity reg uid ty L = (e, L1)" by (cases "get_entity reg uid ty L")
  obtain es' L2 where f: "factory_calls reg calls L1 = (es', L2)"
    by (cases "factory_calls reg calls L1")
  from Cons.prems(2) c g f have "L' = L2" by simp
  moreover from Cons.prems(1) g have "registered_classes reg L1" by (rule registered_get_entity)
  ultimately show ?case using Cons.IH f by simp
qed

lemma registered_update:
  assumes "registered_classes reg L" "ent_cls obj = ent_cls (objects L ! e)"
  shows "registered_classes reg (L\<lparr>objects := (objects L)[e := obj]\<rparr>)"
proof (cases "e < length (objects L)")
  case True
  then have "objects L ! e \<in> set (objects L)" by simp
  with assms have "ent_cls obj \<in> insert AcisEntity (ran reg)"
    by (simp add: registered_classes_def)
  with assms(1) show ?thesis
    using set_update_subset_insert[of "objects L" e obj]
    by (auto simp: registered_classes_def)
next
  case False
  with assms(1) show ?thesis by (simp add: registered_classes_def list_update_beyond)
qed

lemma registered_assign:
  "registered_classes reg L \<Longrightarrow> registered_classes reg (set_id e i L)"
  "registered_classes reg L \<Longrightarrow> registered_classes reg (set_attributes e a L)"
  unfolding set_id_def set_attributes_def by (simp_all add: registered_update)

lemma registered_parse:
  assumes "registered_classes reg L" "parse reg e args L = Inr L'"
  shows "registered_classes reg L'"
proof -
  from assms(2) obtain calls where c: "cls_parse (ent_cls (objects L ! e)) args = Inr calls"
    by (auto simp: parse_def split: sum.splits)
  obtain es L1 where f: "factory_calls reg calls L = (es, L1)"
    by (cases "factory_calls reg calls L")
  from assms(2) c f have "L' = L1\<lparr>objects := (objects L1)[e := (objects L1 ! e)\<lparr>ent_refs := es\<rparr>]\<rparr>"
    by (simp add: parse_def)
  moreover from assms(1) f have "registered_classes reg L1" by (rule registered_factory_calls)
  ultimately show ?thesis by (simp add: registered_update)
qed

lemma registered_load_record:
  assumes "registered_classes reg L" "load_record reg mk r L = Inr L'"
  shows "registered_classes reg L'"
proof -
  obtain e L1 where g: "get_entity reg (rec_uid r) (rec_name r) L = (e, L1)"
    by (cases "get_entity reg (rec_uid r) (rec_name r) L")
  from assms(1) g have "registered_classes reg L1" by (rule registered_get_entity)
  then have "registered_classes reg
      (if is_null_ptr (rec_attributes r) then set_id e (rec_id r) L1
       else set_attributes e e (set_id e (rec_id r) L1))"
    by (simp add: registered_assign)
  moreover from assms(2) g have "parse reg e (mk (rec_data r) (version L))
      (if is_null_ptr (rec_attributes r) then set_id e (rec_id r) L1
       else set_attributes e e (set_id e (rec_id r) L1)) = Inr L'"
    by (simp add: load_record_unfold)
  ultimately show ?thesis by (rule registered_parse)
qed

lemma equivalent_null:
  "equivalent_records f reg v rb rt \<Longrightarrow>
   is_null_ptr (rec_attributes rt) = is_null_ptr (rec_attributes rb)"
  by (cases "rec_attributes rb") (simp_all add: equivalent_records_def)

lemma same_graph_load_record:
  assumes i: "inj f" and s: "same_graph f Lb Lt" and l: "loaded ds Lb"
    and c: "registered_classes reg Lb"
    and q: "equivalent_records f reg (version Lb) rb rt"
  shows "case load_record reg SabDataParser rb Lb of
           Inl err \<Rightarrow> load_record reg SatDataParser rt Lt = Inl err
         | Inr Lb' \<Rightarrow> (\<exists>Lt'. load_record reg SatDataParser rt Lt = Inr Lt' \<and> same_graph f Lb' Lt')"
proof -
  obtain e Lb1 where gb: "get_entity reg (rec_uid rb) (rec_name rb) Lb = (e, Lb1)"
    by (cases "get_entity reg (rec_uid rb) (rec_name rb) Lb")
  from same_graph_get_entity[OF i s gb] q
  obtain Lt1 where gt: "get_entity reg (rec_uid rt) (rec_name rt) Lt = (e, Lt1)"
    and s1: "same_graph f Lb1 Lt1"
    by (auto simp: equivalent_records_def)
  let ?Lb3 = "if is_null_ptr (rec_attributes rb) then set_id e (rec_id rb) Lb1
       else set_attributes e e (set_id e (rec_id rb) Lb1)"
  let ?Lt3 = "if is_null_ptr (rec_attributes rt) then set_id e (rec_id rt) Lt1
       else set_attributes e e (set_id e (rec_id rt) Lt1)"
  from q have ids: "rec_id rt = rec_id rb" by (simp add: equivalent_records_def)
  from s1 have s3: "same_graph f ?Lb3 ?Lt3"
    by (simp add: equivalent_null[OF q] ids same_graph_assign)
  from l have wf: "wf_loader Lb" by (rule loaded_wf)
  from wf gb have wf1: "wf_loader Lb1" by (rule get_entity_wf)
  from gb have "map_of (entities Lb1) (rec_uid rb) = Some e" by (rule get_entity_lookup)
  with wf1 have lt: "e < length (objects Lb1)" by (rule wf_loader_lookup)
  from c gb have c1: "registered_classes reg Lb1" by (rule registered_get_entity)
  from lt have "objects Lb1 ! e \<in> set (objects Lb1)" by simp
  with c1 have k: "ent_cls (objects Lb1 ! e) \<in> insert AcisEntity (ran reg)"
    by (simp add: registered_classes_def)
  have cls3: "ent_cls (objects ?Lb3 ! e) = ent_cls (objects Lb1 ! e)"
    by (simp add: ent_cls_assign)
  from s have v: "version Lt = version Lb" by (simp add: same_graph_def)
  from q k cls3 have agree: "cls_parse (ent_cls (objects ?Lb3 ! e))
        (SatDataParser (rec_data rt) (version Lt)) =
      (case cls_parse (ent_cls (objects ?Lb3 ! e))
              (SabDataParser (rec_data rb) (version Lb)) of
         Inl err \<Rightarrow> Inl err | Inr calls \<Rightarrow> Inr (rename_calls f calls))"
    unfolding equivalent_records_def v cls3 by blast
  have eb: "load_record reg SabDataParser rb Lb =
      parse reg e (SabDataParser (rec_data rb) (version Lb)) ?Lb3"
    using gb by (simp add: load_record_unfold)
  have et: "load_record reg SatDataParser rt Lt =
      parse reg e (SatDataParser (rec_data rt) (version Lt)) ?Lt3"
    using gt by (simp add: load_record_unfold)
  show ?thesis unfolding eb et by (rule same_graph_parse[OF i s3 agree])
qed

lemma same_graph_load_records:
  "inj f \<Longrightarrow> same_graph f Lb Lt \<Longrightarrow> loaded ds Lb \<Longrightarrow> registered_classes reg Lb \<Longrightarrow>
   list_all2 (equivalent_records f reg (version Lb)) rb rt \<Longrightarrow>
   (case load_records reg SabDataParser rb Lb of
      Inl err \<Rightarrow> load_records reg SatDataParser rt Lt = Inl err
    | Inr Lb' \<Rightarrow> (\<exists>Lt'. load_records reg SatDataParser rt Lt = Inr Lt' \<and> same_graph f Lb' Lt'))"
proof (induction rb arbitrary: rt Lb Lt ds)
  case Nil
  then show ?case by simp
next
  case (Cons r rb)
  from Cons.prems(5) obtain r' rt' where rt: "rt = r' # rt'"
    and q: "equivalent_records f reg (version Lb) r r'"
    and rest: "list_all2 (equivalent_records f reg (version Lb)) rb rt'"
    by (auto simp: list_all2_Cons1)
  note step = same_graph_load_record[OF Cons.prems(1,2,3,4) q]
  show ?case
  proof (cases "load_record reg SabDataParser r Lb")
    case (Inl err)
    with step show ?thesis unfolding rt by simp
  next
    case (Inr Lb1)
    with step obtain Lt1 where t: "load_record reg SatDataParser r' Lt = Inr Lt1"
      and s1: "same_graph f Lb1 Lt1" by auto
    from Cons.prems(3) Inr have l1: "loaded (ds @ [r]) Lb1" by (rule load_record_loaded)
    from Cons.prems(4) Inr have c1: "registered_classes reg Lb1" by (rule registered_load_record)
    from Inr have "version Lb1 = version Lb" by (simp add: load_record_fields)
    with rest have rest1: "list_all2 (equivalent_records f reg (version Lb1)) rb rt'" by simp
    have e1: "load_records reg SatDataParser (r' # rt') Lt = load_records reg SatDataParser rt' Lt1"
      using t by simp
    have e2: "load_records reg SabDataParser (r # rb) Lb = load_records reg SabDataParser rb Lb1"
      using Inr by simp
    show ?thesis unfolding rt e1 e2 by (rule Cons.IH[OF Cons.prems(1) s1 l1 c1 rest1])
  qed
qed

lemma same_graph_bodies: "same_graph f Lb Lt \<Longrightarrow> bodies Lt = bodies Lb \<and> objects Lt = objects Lb"
  by (simp add: same_graph_def bodies_def comp_def)

subsection \<open>The concrete streams, evaluated\<close>

lemma cls_simps:
  "cls_type Body = ''body''" "cls_type Edge = ''edge''" "cls_type AcisEntity = ''unsupported-entity''"
  "cls_parse AcisEntity p = Inr []" "cls_parse Body p = Inr []"
  "cls_parse Edge (SabDataParser toks v) = (if toks = [] then Inl (FormatError ''edge: missing field'') else Inr [(3, ''vertex'')])"
  "cls_parse Edge (SatDataParser toks' v) = (if toks' = [] then Inl (FormatError ''edge: missing field'') else Inr [(3, ''vertex'')])"
  "cls_name Body = ''Body''" "cls_name Edge = ''Edge''" "cls_name AcisEntity = ''AcisEntity''"
  "cls_bases Body = [''AcisEntity'']" "cls_bases Edge = [''AcisEntity'']" "cls_bases AcisEntity = []"
  by (simp_all add: Body_def Edge_def AcisEntity_def)

lemma ex_registry_simps:
  "ex_registry ''body'' = Some Body" "ex_registry ''edge'' = Some Edge"
  "ex_registry ''vertex'' = None" "ex_registry ''unknown-xyz'' = None"
  by (simp_all add: ex_registry_def ENTITY_TYPES_init_def register_def cls_simps)

lemma ex_sab_loop:
  "SabLoader_loop ex_registry (ex_records ex_sab_token) (Loader_init 700 (ex_records ex_sab_token))
     = Inr (ex_loaded ex_sab_token)"
  by (simp add: ex_records_def ex_body_def ex_edge_def ex_unknown_def Let_def get_entity_def set_id_def set_attributes_def parse_def
      Loader_init_def new_entity_def ex_loaded_def ex_objects_def cls_simps ex_registry_simps)

lemma ex_sat_loop:
  "SatLoader_loop ex_registry (ex_records ex_sat_token) (Loader_init 700 (ex_records ex_sat_token))
     = Inr (ex_loaded ex_sat_token)"
  by (simp add: ex_records_def ex_body_def ex_edge_def ex_unknown_def Let_def get_entity_def set_id_def set_attributes_def parse_def
      Loader_init_def new_entity_def ex_loaded_def ex_objects_def cls_simps ex_registry_simps)

lemma ex_sab_load_entities:
  "SabLoader_load_entities ex_registry (Loader_init 700 (ex_records ex_sab_token))
     = Inr (ex_loaded ex_sab_token)"
  using ex_sab_loop by (simp add: SabLoader_load_entities_def Loader_init_def)

lemma ex_sat_load_entities:
  "SatLoader_load_entities ex_registry (Loader_init 700 (ex_records ex_sat_token))
     = Inr (ex_loaded ex_sat_token)"
  using ex_sat_loop by (simp add: SatLoader_load_entities_def Loader_init_def)

lemma ex_records_facts:
  "ex_body \<in> set (ex_records tok)" "ex_unknown \<in> set (ex_records tok)"
  "ex_edge tok \<in> set (ex_records tok)"
  "distinct (map rec_uid (ex_records tok))"
  "3 \<notin> rec_uid ` set (ex_records tok)"
  "is_null_ptr (rec_attributes (ex_body :: 'tok raw_entity))"
  "rec_uid (ex_body :: 'tok raw_entity) = 1"
  by (simp_all add: ex_records_def ex_body_def ex_edge_def ex_unknown_def)

lemma ex_memo_steps:
  "get_entity ex_registry 3 ''vertex'' (Loader_init 700 (ex_records tok)) = (0, ex_memo1 tok)"
  "factory_calls ex_registry [(3, ''edge''), (1, ''body'')] (ex_memo1 tok) = ([0, 1], ex_memo2 tok)"
  "load_records ex_registry SabDataParser (ex_records ex_sab_token) (ex_memo2 ex_sab_token)
     = Inr (ex_memo3 ex_sab_token)"
  by (simp_all add: ex_memo1_def ex_memo2_def ex_memo3_def ex_records_def ex_body_def ex_edge_def
      ex_unknown_def Let_def get_entity_def load_record_def set_id_def set_attributes_def parse_def
      Loader_init_def new_entity_def cls_simps ex_registry_simps)

lemma ex_trunc_steps:
  "SabLoader_loop ex_registry [ex_body]
     (Loader_init 700 [ex_body, ex_truncated, ex_unknown]) = Inr ex_trunc1"
  "SatLoader_loop ex_registry [ex_body]
     (Loader_init 700 [ex_body, ex_truncated, ex_unknown]) = Inr ex_trunc1"
  "get_entity ex_registry (rec_uid (ex_truncated :: 'tok raw_entity)) (rec_name (ex_truncated :: 'tok raw_entity))
     (ex_trunc1 :: 'tok loader) = (1, ex_trunc2)"
  "cls_parse (ent_cls (objects (ex_trunc2 :: sab_token loader) ! 1))
     (SabDataParser (rec_data ex_truncated) 700) = Inl (FormatError ''edge: missing field'')"
  "cls_parse (ent_cls (objects (ex_trunc2 :: sat_token loader) ! 1))
     (SatDataParser (rec_data ex_truncated) 700) = Inl (FormatError ''edge: missing field'')"
  by (simp_all add: ex_trunc1_def ex_trunc2_def ex_body_def ex_truncated_def
      Let_def get_entity_def set_id_def set_attributes_def parse_def
      Loader_init_def new_entity_def cls_simps ex_registry_simps)

lemma ex_names_agree:
  "names_agree ex_nm ex_registry SabDataParser 700 (ex_records ex_sab_token)"
  "names_agree ex_nm ex_registry SatDataParser 700 (ex_records ex_sat_token)"
  by (simp_all add: names_agree_def ex_records_def ex_body_def ex_edge_def ex_unknown_def
      lookup_cls_def ex_registry_simps cls_simps ex_nm_def ex_sab_token_def ex_sat_token_def)

lemma ex_decodes:
  "decodes ex_registry SabDataParser 700 (ex_records ex_sab_token)"
  "decodes ex_registry SatDataParser 700 (ex_records ex_sat_token)"
  by (simp_all add: decodes_def ex_records_def ex_body_def ex_edge_def ex_unknown_def
      ex_registry_simps cls_simps ex_sab_token_def ex_sat_token_def)

lemma ex_rename_inj: "inj ex_rename"
  by (auto simp: inj_def ex_rename_def split: if_splits)

lemma ex_registry_ran: "ran ex_registry = {Edge, Body}"
proof -
  have e: "ex_registry = [''body'' \<mapsto> Body, ''edge'' \<mapsto> Edge]"
    by (simp add: ex_registry_def ENTITY_TYPES_init_def register_def cls_simps)
  have "ran [''body'' \<mapsto> Body, ''edge'' \<mapsto> Edge] = {Edge, Body}"
    by (simp add: ran_map_upd)
  with e show ?thesis by (simp only:)
qed

lemma ex_equivalent_parse:
  "cls \<in> insert AcisEntity (ran ex_registry) \<Longrightarrow> toks \<noteq> [] \<Longrightarrow> toks' \<noteq> [] \<Longrightarrow>
   cls_parse cls (SatDataParser toks' 700) =
     (case cls_parse cls (SabDataParser toks 700) of
        Inl err \<Rightarrow> Inl err | Inr calls \<Rightarrow> Inr (rename_calls ex_rename calls))"
  "cls \<in> insert AcisEntity (ran ex_registry) \<Longrightarrow>
   cls_parse cls (SatDataParser [] 700) =
     (case cls_parse cls (SabDataParser [] 700) of
        Inl err \<Rightarrow> Inl err | Inr calls \<Rightarrow> Inr (rename_calls ex_rename calls))"
  by (auto simp: ex_registry_ran cls_simps rename_calls_def ex_rename_def)

lemma ex_equivalent:
  "list_all2 (equivalent_records ex_rename ex_registry 700) (ex_records ex_sab_token) ex_text_records"
  by (simp add: equivalent_records_def ex_equivalent_parse ex_records_def ex_text_records_def
      ex_body_def ex_edge_def ex_unknown_def ex_rename_def)

subsection \<open>The attributes link\<close>

text \<open>
  C1: in the concrete stream the edge record (identity 2) has \<open>attributes\<close> pointing to
  the body record (identity 1).  After \<open>load_entities\<close> the entity of the body is
  object 0 and the entity of the edge is object 1, and the \<open>attributes\<close> link of the
  edge's entity is object 1, the entity itself, not object 0: the loop resolves
  \<open>id(sab_entity)\<close> where the referenced record was meant.
\<close>

theorem attributes_link_is_own_entity:
  "SabLoader_load_entities ex_registry (Loader_init 700 (ex_records ex_sab_token))
     = Inr (ex_loaded ex_sab_token) \<and>
   SatLoader_load_entities ex_registry (Loader_init 700 (ex_records ex_sat_token))
     = Inr (ex_loaded ex_sat_token) \<and>
   ex_edge tok \<in> set (ex_records tok) \<and>
   rec_attributes (ex_edge tok) = Ptr 1 ''body'' \<and>
   rec_uid (ex_edge tok) = 2 \<and>
   map_of (entities (ex_loaded tok)) 1 = Some 0 \<and>
   map_of (entities (ex_loaded tok)) 2 = Some 1 \<and>
   ent_attributes (objects (ex_loaded tok) ! 1) = Some 1 \<and>
   ent_attributes (objects (ex_loaded tok) ! 1) \<noteq> Some 0"
  using ex_sab_load_entities ex_sat_load_entities
  by (simp add: ex_records_def ex_edge_def ex_loaded_def ex_objects_def)

subsection \<open>Records of an unregistered type\<close>

text \<open>
  C2, as stated, fails: the entity of the record named \<open>unknown-xyz\<close> is an
  \<open>AcisEntity\<close>, and its \<open>type\<close> is the class attribute \<open>unsupported-entity\<close>, not
  the name of the record.
\<close>

theorem unknown_type_name_counterexample:
  "SabLoader_load_entities ex_registry (Loader_init 700 (ex_records ex_sab_token))
     = Inr (ex_loaded ex_sab_token) \<and>
   ex_unknown \<in> set (ex_records ex_sab_token) \<and>
   rec_name (ex_unknown :: sab_token raw_entity) = ''unknown-xyz'' \<and>
   ex_registry ''unknown-xyz'' = None \<and>
   map_of (entities (ex_loaded ex_sab_token)) (rec_uid (ex_unknown :: sab_token raw_entity)) = Some 3 \<and>
   cls_type (ent_cls (objects (ex_loaded ex_sab_token) ! 3)) = ''unsupported-entity'' \<and>
   cls_type (ent_cls (objects (ex_loaded ex_sab_token) ! 3))
     \<noteq> rec_name (ex_unknown :: sab_token raw_entity)"
  using ex_sab_load_entities
  by (simp add: ex_records_def ex_unknown_def ex_loaded_def ex_objects_def cls_simps
      ex_registry_simps)

text \<open>
  C2, amended: the entity of a record of an unregistered type is a plain \<open>AcisEntity\<close>,
  whose \<open>type\<close> is \<open>unsupported-entity\<close>, with the record's \<open>id\<close> and no fields
  of its own.  When the references of the stream carry the records' own names and
  every record of a registered type has data its class can parse, \<open>load_entities\<close>
  does not raise, whatever records of unregistered types the stream holds, and the
  entity of every record registered for \<open>Body\<close> is among the bodies with its \<open>id\<close>.
\<close>

theorem unknown_type_placeholder:
  "cls_type AcisEntity = ''unsupported-entity'' \<and>
   (names_agree nm reg SabDataParser v rb \<and> decodes reg SabDataParser v rb \<and>
      distinct (map rec_uid rb) \<longrightarrow>
    (\<exists>L. SabLoader_load_entities reg (Loader_init v rb) = Inr L \<and>
         placeholders reg rb L \<and> bodies_returned reg rb L)) \<and>
   (names_agree nm' reg SatDataParser v rt \<and> decodes reg SatDataParser v rt \<and>
      distinct (map rec_uid rt) \<longrightarrow>
    (\<exists>L. SatLoader_load_entities reg (Loader_init v rt) = Inr L \<and>
         placeholders reg rt L \<and> bodies_returned reg rt L))"
  unfolding SabLoader_load_entities_init SatLoader_load_entities_init
  using load_records_unknown_types[of nm reg SabDataParser v rb]
    load_records_unknown_types[of nm' reg SatDataParser v rt]
  by (simp add: AcisEntity_def)

theorem unknown_type_placeholder_witness:
  "names_agree ex_nm ex_registry SabDataParser 700 (ex_records ex_sab_token) \<and>
   decodes ex_registry SabDataParser 700 (ex_records ex_sab_token) \<and>
   distinct (map rec_uid (ex_records ex_sab_token)) \<and>
   SabLoader_load_entities ex_registry (Loader_init 700 (ex_records ex_sab_token))
     = Inr (ex_loaded ex_sab_token) \<and>
   placeholders ex_registry (ex_records ex_sab_token) (ex_loaded ex_sab_token) \<and>
   bodies_returned ex_registry (ex_records ex_sab_token) (ex_loaded ex_sab_token) \<and>
   names_agree ex_nm ex_registry SatDataParser 700 (ex_records ex_sat_token) \<and>
   decodes ex_registry SatDataParser 700 (ex_records ex_sat_token) \<and>
   distinct (map rec_uid (ex_records ex_sat_token)) \<and>
   SatLoader_load_entities ex_registry (Loader_init 700 (ex_records ex_sat_token))
     = Inr (ex_loaded ex_sat_token) \<and>
   placeholders ex_registry (ex_records ex_sat_token) (ex_loaded ex_sat_token) \<and>
   bodies_returned ex_registry (ex_records ex_sat_token) (ex_loaded ex_sat_token)"
  using unknown_type_placeholder[where nm = ex_nm and nm' = ex_nm and reg = ex_registry
      and v = 700 and rb = "ex_records ex_sab_token" and rt = "ex_records ex_sat_token"]
    ex_names_agree ex_decodes ex_sab_load_entities ex_sat_load_entities
    ex_records_facts(4)[of ex_sab_token] ex_records_facts(4)[of ex_sat_token]
  by auto

subsection \<open>Memoization by record identity\<close>

text \<open>
  C3: the first \<open>get_entity\<close> for an identity not yet in the dict constructs an object of
  the class the registry gives and stores it; every later call for that identity, right
  away, after any further factory calls and after any run of the record loop (both loops
  are \<open>load_records\<close>, by \<open>SabLoader_loop_eq\<close> and \<open>SatLoader_loop_eq\<close>), returns the
  same object and leaves the loader as it is.  From a loader in a state the loop can
  reach, the dict ends with one entry per identity and one object per entry.
\<close>

theorem get_entity_memoizes:
  "get_entity reg uid ty L = (e, L1) \<and> factory_calls reg calls L1 = (es, L2) \<and>
     load_records reg mk rs L2 = Inr L3 \<longrightarrow>
   (map_of (entities L) uid = None \<longrightarrow>
      e = length (objects L) \<and>
      L1 = L\<lparr> objects := objects L @ [new_entity (case reg ty of Some cls \<Rightarrow> cls | None \<Rightarrow> AcisEntity)],
               entities := entities L @ [(uid, e)] \<rparr>) \<and>
   get_entity reg uid ty' L1 = (e, L1) \<and>
   get_entity reg uid ty' L2 = (e, L2) \<and>
   get_entity reg uid ty' L3 = (e, L3) \<and>
   (loaded ds L \<longrightarrow>
      distinct (map fst (entities L3)) \<and> distinct (map snd (entities L3)) \<and>
      length (entities L3) = length (objects L3))"
proof (intro impI, elim conjE)
  assume g: "get_entity reg uid ty L = (e, L1)"
    and f: "factory_calls reg calls L1 = (es, L2)"
    and l: "load_records reg mk rs L2 = Inr L3"
  from g have m1: "map_of (entities L1) uid = Some e" by (rule get_entity_lookup)
  from m1 f have m2: "map_of (entities L2) uid = Some e" by (rule factory_calls_mono)
  from m2 l have m3: "map_of (entities L3) uid = Some e" by (rule load_records_mono)
  have first: "map_of (entities L) uid = None \<longrightarrow>
      e = length (objects L) \<and>
      L1 = L\<lparr> objects := objects L @ [new_entity (case reg ty of Some cls \<Rightarrow> cls | None \<Rightarrow> AcisEntity)],
               entities := entities L @ [(uid, e)] \<rparr>"
    using g by (auto simp: get_entity_def Let_def)
  have one: "distinct (map fst (entities L3)) \<and> distinct (map snd (entities L3)) \<and>
      length (entities L3) = length (objects L3)" if "loaded ds L"
  proof -
    from that g have "loaded ds L1" by (rule loaded_get_entity)
    then have "loaded ds L2" using f by (rule loaded_factory_calls)
    then have "loaded (ds @ rs) L3" using l by (rule load_records_loaded)
    then have wf: "wf_loader L3" by (rule loaded_wf)
    then have eq: "map snd (entities L3) = [0..<length (objects L3)]" by (simp add: wf_loader_def)
    have "distinct (map snd (entities L3))" unfolding eq by simp
    moreover have "length (entities L3) = length (objects L3)"
      using arg_cong[OF eq, of length] by simp
    moreover from wf have "distinct (map fst (entities L3))" by (simp add: wf_loader_def)
    ultimately show ?thesis by blast
  qed
  from first m1 m2 m3 one
  show "(map_of (entities L) uid = None \<longrightarrow>
      e = length (objects L) \<and>
      L1 = L\<lparr> objects := objects L @ [new_entity (case reg ty of Some cls \<Rightarrow> cls | None \<Rightarrow> AcisEntity)],
               entities := entities L @ [(uid, e)] \<rparr>) \<and>
   get_entity reg uid ty' L1 = (e, L1) \<and>
   get_entity reg uid ty' L2 = (e, L2) \<and>
   get_entity reg uid ty' L3 = (e, L3) \<and>
   (loaded ds L \<longrightarrow>
      distinct (map fst (entities L3)) \<and> distinct (map snd (entities L3)) \<and>
      length (entities L3) = length (objects L3))"
    by (simp add: get_entity_cached)
qed

theorem get_entity_memoizes_witness:
  "get_entity ex_registry 3 ''vertex'' (Loader_init 700 (ex_records ex_sab_token))
     = (0, ex_memo1 ex_sab_token) \<and>
   factory_calls ex_registry [(3, ''edge''), (1, ''body'')] (ex_memo1 ex_sab_token)
     = ([0, 1], ex_memo2 ex_sab_token) \<and>
   load_records ex_registry SabDataParser (ex_records ex_sab_token) (ex_memo2 ex_sab_token)
     = Inr (ex_memo3 ex_sab_token) \<and>
   map_of (entities (Loader_init 700 (ex_records ex_sab_token))) 3 = None \<and>
   loaded [] (Loader_init 700 (ex_records ex_sab_token)) \<and>
   get_entity ex_registry 3 ''edge'' (ex_memo1 ex_sab_token) = (0, ex_memo1 ex_sab_token) \<and>
   get_entity ex_registry 3 ''edge'' (ex_memo2 ex_sab_token) = (0, ex_memo2 ex_sab_token) \<and>
   get_entity ex_registry 3 ''edge'' (ex_memo3 ex_sab_token) = (0, ex_memo3 ex_sab_token) \<and>
   distinct (map fst (entities (ex_memo3 ex_sab_token))) \<and>
   distinct (map snd (entities (ex_memo3 ex_sab_token))) \<and>
   length (entities (ex_memo3 ex_sab_token)) = length (objects (ex_memo3 ex_sab_token))"
proof -
  have h: "get_entity ex_registry 3 ''vertex'' (Loader_init 700 (ex_records ex_sab_token))
       = (0, ex_memo1 ex_sab_token) \<and>
     factory_calls ex_registry [(3, ''edge''), (1, ''body'')] (ex_memo1 ex_sab_token)
       = ([0, 1], ex_memo2 ex_sab_token) \<and>
     load_records ex_registry SabDataParser (ex_records ex_sab_token) (ex_memo2 ex_sab_token)
       = Inr (ex_memo3 ex_sab_token)"
    using ex_memo_steps(1,2)[of ex_sab_token] ex_memo_steps(3) by blast
  note t = get_entity_memoizes[where reg = ex_registry and uid = 3 and ty = "''vertex''"
      and ty' = "''edge''" and L = "Loader_init 700 (ex_records ex_sab_token)" and e = 0
      and ?L1.0 = "ex_memo1 ex_sab_token" and calls = "[(3, ''edge''), (1, ''body'')]"
      and es = "[0, 1]" and ?L2.0 = "ex_memo2 ex_sab_token" and mk = SabDataParser
      and rs = "ex_records ex_sab_token" and ?L3.0 = "ex_memo3 ex_sab_token" and ds = "[]",
      THEN mp, OF h]
  have m: "map_of (entities (Loader_init 700 (ex_records ex_sab_token))) 3 = None"
    by (simp add: Loader_init_def)
  from t m h loaded_init[of 700 "ex_records ex_sab_token"] show ?thesis by blast
qed

subsection \<open>Dispatch on the type of the input\<close>

text \<open>
  C4: \<open>load\<close> looks at the type of its argument only: \<open>bytes\<close> and \<open>bytearray\<close> go to
  \<open>SabLoader.load\<close>, \<open>str\<close> goes to \<open>SatLoader.load\<close>, and a value of any other type
  gives a TypeError whatever the tokenizers and the registry are, so that neither
  tokenizer has been run.
\<close>

theorem load_dispatch:
  "load parse_sab parse_sat reg (Bytes b) = SabLoader_load parse_sab reg b \<and>
   load parse_sab parse_sat reg (ByteArray b) = SabLoader_load parse_sab reg b \<and>
   load parse_sab parse_sat reg (Str s) = SatLoader_load parse_sat reg s \<and>
   load parse_sab parse_sat reg (Other ty) = Inl (TypeError (''invalid type of data: '' @ ty)) \<and>
   load parse_sab parse_sat reg (Other ty) = load parse_sab' parse_sat' reg' (Other ty)"
  by (simp add: load_def)

subsection \<open>Records without attributes\<close>

text \<open>
  C5: after \<open>load_entities\<close> has run over a stream of records of distinct identity,
  the entity of a record whose \<open>attributes\<close> is the null pointer has no \<open>attributes\<close>
  link: the value is the class default \<open>None\<close>.  Both loaders.
\<close>

theorem null_attributes_absent:
  fixes Lb :: "sab_token loader" and Lt :: "sat_token loader"
  shows
  "(SabLoader_load_entities reg (Loader_init v rb) = Inr Lb \<and> sab_entity \<in> set rb \<and>
      is_null_ptr (rec_attributes sab_entity) \<and> distinct (map rec_uid rb) \<longrightarrow>
      (\<exists>e. map_of (entities Lb) (rec_uid sab_entity) = Some e \<and> e < length (objects Lb) \<and>
           ent_attributes (objects Lb ! e) = None)) \<and>
   (SatLoader_load_entities reg (Loader_init v rt) = Inr Lt \<and> sat_entity \<in> set rt \<and>
      is_null_ptr (rec_attributes sat_entity) \<and> distinct (map rec_uid rt) \<longrightarrow>
      (\<exists>e. map_of (entities Lt) (rec_uid sat_entity) = Some e \<and> e < length (objects Lt) \<and>
           ent_attributes (objects Lt ! e) = None))"
  unfolding SabLoader_load_entities_init SatLoader_load_entities_init
  by (blast intro: loaded_null_attributes dest: load_records_from_init)

theorem null_attributes_absent_witness:
  "SabLoader_load_entities ex_registry (Loader_init 700 (ex_records ex_sab_token))
     = Inr (ex_loaded ex_sab_token) \<and>
   SatLoader_load_entities ex_registry (Loader_init 700 (ex_records ex_sat_token))
     = Inr (ex_loaded ex_sat_token) \<and>
   ex_body \<in> set (ex_records ex_sab_token) \<and> ex_body \<in> set (ex_records ex_sat_token) \<and>
   is_null_ptr (rec_attributes (ex_body :: sab_token raw_entity)) \<and>
   is_null_ptr (rec_attributes (ex_body :: sat_token raw_entity)) \<and>
   distinct (map rec_uid (ex_records ex_sab_token)) \<and>
   distinct (map rec_uid (ex_records ex_sat_token)) \<and>
   (\<exists>e. map_of (entities (ex_loaded ex_sab_token)) 1 = Some e \<and>
        e < length (objects (ex_loaded ex_sab_token)) \<and>
        ent_attributes (objects (ex_loaded ex_sab_token) ! e) = None) \<and>
   (\<exists>e. map_of (entities (ex_loaded ex_sat_token)) 1 = Some e \<and>
        e < length (objects (ex_loaded ex_sat_token)) \<and>
        ent_attributes (objects (ex_loaded ex_sat_token) ! e) = None)"
  using null_attributes_absent[where reg = ex_registry and v = 700
      and rb = "ex_records ex_sab_token" and Lb = "ex_loaded ex_sab_token" and sab_entity = ex_body
      and rt = "ex_records ex_sat_token" and Lt = "ex_loaded ex_sat_token" and sat_entity = ex_body]
    ex_sab_load_entities ex_sat_load_entities
  by (simp add: ex_records_facts)

subsection \<open>The bodies of a load\<close>

text \<open>
  C6: after \<open>load_entities\<close>, the values of the dict are exactly the entity objects
  created, and \<open>bodies()\<close> is the list of those among them that are instances of
  \<open>Body\<close>, each once, in the order of their creation; it is a function of the loader
  state and so of the record stream.
\<close>

theorem bodies_exact:
  fixes Lb :: "sab_token loader" and Lt :: "sat_token loader"
  shows
  "(SabLoader_load_entities reg (Loader_init v rb) = Inr Lb \<longrightarrow>
      map snd (entities Lb) = [0..<length (objects Lb)] \<and>
      bodies Lb = filter (\<lambda>e. isinstance (objects Lb ! e) Body) [0..<length (objects Lb)] \<and>
      set (bodies Lb) = {e. e < length (objects Lb) \<and> isinstance (objects Lb ! e) Body} \<and>
      distinct (bodies Lb)) \<and>
   (SatLoader_load_entities reg (Loader_init v rt) = Inr Lt \<longrightarrow>
      map snd (entities Lt) = [0..<length (objects Lt)] \<and>
      bodies Lt = filter (\<lambda>e. isinstance (objects Lt ! e) Body) [0..<length (objects Lt)] \<and>
      set (bodies Lt) = {e. e < length (objects Lt) \<and> isinstance (objects Lt ! e) Body} \<and>
      distinct (bodies Lt))"
proof -
  note b = loaded_bodies[OF load_records_from_init, of reg SabDataParser rb v rb Lb]
  note t = loaded_bodies[OF load_records_from_init, of reg SatDataParser rt v rt Lt]
  from b t show ?thesis
    unfolding SabLoader_load_entities_init SatLoader_load_entities_init by blast
qed

theorem bodies_exact_witness:
  "SabLoader_load_entities ex_registry (Loader_init 700 (ex_records ex_sab_token))
     = Inr (ex_loaded ex_sab_token) \<and>
   SatLoader_load_entities ex_registry (Loader_init 700 (ex_records ex_sat_token))
     = Inr (ex_loaded ex_sat_token) \<and>
   bodies (ex_loaded ex_sab_token) = [0] \<and>
   bodies (ex_loaded ex_sab_token)
     = filter (\<lambda>e. isinstance (objects (ex_loaded ex_sab_token) ! e) Body)
         [0..<length (objects (ex_loaded ex_sab_token))] \<and>
   bodies (ex_loaded ex_sat_token) = [0] \<and>
   bodies (ex_loaded ex_sat_token)
     = filter (\<lambda>e. isinstance (objects (ex_loaded ex_sat_token) ! e) Body)
         [0..<length (objects (ex_loaded ex_sat_token))]"
  using bodies_exact[where reg = ex_registry and v = 700
      and rb = "ex_records ex_sab_token" and Lb = "ex_loaded ex_sab_token"
      and rt = "ex_records ex_sat_token" and Lt = "ex_loaded ex_sat_token"]
    ex_sab_load_entities ex_sat_load_entities
  by (simp add: bodies_def ex_loaded_def ex_objects_def isinstance_def cls_simps)

subsection \<open>The two encodings\<close>

text \<open>
  C7: when the two tokenizers return the same version and record lists that
  correspond record by record (same name, \<open>id\<close> and attributes pointer, field data
  on which the classes parse alike, identities related by an injective \<open>f\<close>), then
  \<open>SatLoader.load\<close> and \<open>SabLoader.load\<close> return the same result: the same error,
  or the same list of bodies over the same object store, hence the same \<open>id\<close>
  values and the same attributes and reference links.
\<close>

theorem encodings_agree:
  "inj f \<and> parse_sab data = Inr bb \<and> parse_sat str = Inr bt \<and>
   header_version bt = header_version bb \<and>
   list_all2 (equivalent_records f reg (header_version bb))
     (builder_entities bb) (builder_entities bt) \<longrightarrow>
   SatLoader_load parse_sat reg str = SabLoader_load parse_sab reg data"
proof (intro impI, elim conjE)
  assume i: "inj f" and pb: "parse_sab data = Inr bb" and pt: "parse_sat str = Inr bt"
    and v: "header_version bt = header_version bb"
    and q: "list_all2 (equivalent_records f reg (header_version bb))
              (builder_entities bb) (builder_entities bt)"
  let ?Lb = "Loader_init (header_version bb) (builder_entities bb) :: sab_token loader"
  let ?Lt = "Loader_init (header_version bb) (builder_entities bt) :: sat_token loader"
  have s: "same_graph f ?Lb ?Lt" by (simp add: same_graph_def Loader_init_def)
  have c: "registered_classes reg ?Lb" by (simp add: registered_classes_def Loader_init_def)
  have vb: "version ?Lb = header_version bb" by (simp add: Loader_init_def)
  from q have q': "list_all2 (equivalent_records f reg (version ?Lb))
      (builder_entities bb) (builder_entities bt)" by (simp only: vb)
  note sim = same_graph_load_records[OF i s loaded_init c q']
  have "SatLoader_load parse_sat reg str =
      (case load_records reg SatDataParser (builder_entities bt) ?Lt of
         Inl err \<Rightarrow> Inl err | Inr L \<Rightarrow> Inr (bodies L, objects L))"
    using pt v by (simp add: SatLoader_load_def SatLoader_init_def SatLoader_load_entities_init)
  moreover have "SabLoader_load parse_sab reg data =
      (case load_records reg SabDataParser (builder_entities bb) ?Lb of
         Inl err \<Rightarrow> Inl err | Inr L \<Rightarrow> Inr (bodies L, objects L))"
    using pb by (simp add: SabLoader_load_def SabLoader_init_def SabLoader_load_entities_init)
  ultimately show "SatLoader_load parse_sat reg str = SabLoader_load parse_sab reg data"
    using sim by (auto split: sum.splits dest: same_graph_bodies)
qed

theorem encodings_agree_witness:
  "inj ex_rename \<and>
   list_all2 (equivalent_records ex_rename ex_registry 700) (ex_records ex_sab_token) ex_text_records \<and>
   SatLoader_load (\<lambda>s. Inr \<lparr> header_version = 700, builder_entities = ex_text_records \<rparr>)
       ex_registry ''700 0 1 0'' =
     SabLoader_load (\<lambda>d. Inr \<lparr> header_version = 700, builder_entities = ex_records ex_sab_token \<rparr>)
       ex_registry [65, 67, 73, 83] \<and>
   SabLoader_load (\<lambda>d. Inr \<lparr> header_version = 700, builder_entities = ex_records ex_sab_token \<rparr>)
       ex_registry [65, 67, 73, 83] = Inr ([0], ex_objects)"
proof -
  have h: "inj ex_rename \<and>
      (\<lambda>d. Inr \<lparr> header_version = 700, builder_entities = ex_records ex_sab_token \<rparr>)
         ([65, 67, 73, 83] :: 8 word list)
        = Inr \<lparr> header_version = 700, builder_entities = ex_records ex_sab_token \<rparr> \<and>
      (\<lambda>s. Inr \<lparr> header_version = 700, builder_entities = ex_text_records \<rparr>) ''700 0 1 0''
        = Inr \<lparr> header_version = 700, builder_entities = ex_text_records \<rparr> \<and>
      header_version \<lparr> header_version = 700, builder_entities = ex_text_records \<rparr>
        = header_version \<lparr> header_version = 700, builder_entities = ex_records ex_sab_token \<rparr> \<and>
      list_all2 (equivalent_records ex_rename ex_registry
          (header_version \<lparr> header_version = 700, builder_entities = ex_records ex_sab_token \<rparr>))
        (builder_entities \<lparr> header_version = 700, builder_entities = ex_records ex_sab_token \<rparr>)
        (builder_entities \<lparr> header_version = 700, builder_entities = ex_text_records \<rparr>)"
    using ex_rename_inj ex_equivalent by simp
  note t = encodings_agree[where f = ex_rename and reg = ex_registry
      and parse_sab = "\<lambda>d. Inr \<lparr> header_version = 700, builder_entities = ex_records ex_sab_token \<rparr>"
      and parse_sat = "\<lambda>s. Inr \<lparr> header_version = 700, builder_entities = ex_text_records \<rparr>"
      and data = "[65, 67, 73, 83]" and str = "''700 0 1 0''"
      and bb = "\<lparr> header_version = 700, builder_entities = ex_records ex_sab_token \<rparr>"
      and bt = "\<lparr> header_version = 700, builder_entities = ex_text_records \<rparr>",
      THEN mp, OF h]
  have r: "SabLoader_load (\<lambda>d. Inr \<lparr> header_version = 700, builder_entities = ex_records ex_sab_token \<rparr>)
       ex_registry [65, 67, 73, 83] = Inr ([0], ex_objects)"
    using ex_sab_load_entities
    by (simp add: SabLoader_load_def SabLoader_init_def bodies_def ex_loaded_def ex_objects_def
        isinstance_def cls_simps)
  from t r ex_rename_inj ex_equivalent show ?thesis by blast
qed

subsection \<open>A failing parse fails the load\<close>

text \<open>
  C8: when the records before some record load, and the \<open>parse\<close> method of that
  record's entity raises \<open>err\<close> on the record's data, then \<open>SabLoader.load\<close> (and
  \<open>SatLoader.load\<close>, and \<open>load\<close> on top of them) raises exactly \<open>err\<close>: the result is
  the error, not a list of bodies.
\<close>

theorem parse_error_fails_load:
  "(parse_sab data = Inr b \<and> builder_entities b = pre @ sab_entity # post \<and>
    SabLoader_loop reg pre (Loader_init (header_version b) (builder_entities b)) = Inr L \<and>
    get_entity reg (rec_uid sab_entity) (rec_name sab_entity) L = (e, L1) \<and>
    cls_parse (ent_cls (objects L1 ! e))
      (SabDataParser (rec_data sab_entity) (header_version b)) = Inl err \<longrightarrow>
    SabLoader_load parse_sab reg data = Inl err \<and>
    load parse_sab parse_sat reg (Bytes data) = Inl err \<and>
    load parse_sab parse_sat reg (ByteArray data) = Inl err) \<and>
   (parse_sat str = Inr b' \<and> builder_entities b' = pre' @ sat_entity # post' \<and>
    SatLoader_loop reg pre' (Loader_init (header_version b') (builder_entities b')) = Inr L' \<and>
    get_entity reg (rec_uid sat_entity) (rec_name sat_entity) L' = (e', L1') \<and>
    cls_parse (ent_cls (objects L1' ! e'))
      (SatDataParser (rec_data sat_entity) (header_version b')) = Inl err' \<longrightarrow>
    SatLoader_load parse_sat reg str = Inl err' \<and>
    load parse_sab parse_sat reg (Str str) = Inl err')"
proof (intro conjI impI; elim conjE)
  assume a: "parse_sab data = Inr b" "builder_entities b = pre @ sab_entity # post"
    "SabLoader_loop reg pre (Loader_init (header_version b) (builder_entities b)) = Inr L"
    "get_entity reg (rec_uid sab_entity) (rec_name sab_entity) L = (e, L1)"
    "cls_parse (ent_cls (objects L1 ! e))
       (SabDataParser (rec_data sab_entity) (header_version b)) = Inl err"
  have "load_records reg SabDataParser (pre @ sab_entity # post)
          (Loader_init (header_version b) (builder_entities b)) = Inl err"
    using a(3,4,5) by (intro load_records_raises) (simp_all add: SabLoader_loop_eq Loader_init_def)
  with a(1,2) show r: "SabLoader_load parse_sab reg data = Inl err"
    by (simp add: SabLoader_load_def SabLoader_init_def SabLoader_load_entities_init)
  then show "load parse_sab parse_sat reg (Bytes data) = Inl err"
    "load parse_sab parse_sat reg (ByteArray data) = Inl err"
    by (simp_all add: load_def)
next
  assume a: "parse_sat str = Inr b'" "builder_entities b' = pre' @ sat_entity # post'"
    "SatLoader_loop reg pre' (Loader_init (header_version b') (builder_entities b')) = Inr L'"
    "get_entity reg (rec_uid sat_entity) (rec_name sat_entity) L' = (e', L1')"
    "cls_parse (ent_cls (objects L1' ! e'))
       (SatDataParser (rec_data sat_entity) (header_version b')) = Inl err'"
  have "load_records reg SatDataParser (pre' @ sat_entity # post')
          (Loader_init (header_version b') (builder_entities b')) = Inl err'"
    using a(3,4,5) by (intro load_records_raises) (simp_all add: SatLoader_loop_eq Loader_init_def)
  with a(1,2) show r: "SatLoader_load parse_sat reg str = Inl err'"
    by (simp add: SatLoader_load_def SatLoader_init_def SatLoader_load_entities_init)
  then show "load parse_sab parse_sat reg (Str str) = Inl err'"
    by (simp add: load_def)
qed

theorem parse_error_fails_load_witness:
  "SabLoader_load (\<lambda>data. Inr ex_trunc_builder) ex_registry [] =
     Inl (FormatError ''edge: missing field'') \<and>
   load (\<lambda>data. Inr ex_trunc_builder) (\<lambda>text. Inr ex_trunc_builder) ex_registry (Bytes []) =
     Inl (FormatError ''edge: missing field'') \<and>
   load (\<lambda>data. Inr ex_trunc_builder) (\<lambda>text. Inr ex_trunc_builder) ex_registry (ByteArray []) =
     Inl (FormatError ''edge: missing field'') \<and>
   SatLoader_load (\<lambda>text. Inr ex_trunc_builder) ex_registry [] =
     Inl (FormatError ''edge: missing field'') \<and>
   load (\<lambda>data. Inr ex_trunc_builder) (\<lambda>text. Inr ex_trunc_builder) ex_registry (Str []) =
     Inl (FormatError ''edge: missing field'')"
proof -
  have b: "builder_entities (ex_trunc_builder :: 'a builder) = [ex_body] @ ex_truncated # [ex_unknown]"
    "header_version (ex_trunc_builder :: 'a builder) = 700"
    by (simp_all add: ex_trunc_builder_def)
  have hb: "(\<lambda>data. Inr ex_trunc_builder) ([] :: 8 word list) = Inr (ex_trunc_builder :: sab_token builder) \<and>
      builder_entities (ex_trunc_builder :: sab_token builder) = [ex_body] @ ex_truncated # [ex_unknown] \<and>
      SabLoader_loop ex_registry [ex_body]
        (Loader_init (header_version (ex_trunc_builder :: sab_token builder))
           (builder_entities (ex_trunc_builder :: sab_token builder))) = Inr ex_trunc1 \<and>
      get_entity ex_registry (rec_uid (ex_truncated :: sab_token raw_entity))
        (rec_name (ex_truncated :: sab_token raw_entity)) (ex_trunc1 :: sab_token loader)
          = (1, ex_trunc2) \<and>
      cls_parse (ent_cls (objects (ex_trunc2 :: sab_token loader) ! 1))
        (SabDataParser (rec_data ex_truncated)
           (header_version (ex_trunc_builder :: sab_token builder)))
        = Inl (FormatError ''edge: missing field'')"
    using ex_trunc_steps(1,4) ex_trunc_steps(3)[where 'tok = sab_token]
    by (simp add: ex_trunc_builder_def del: SabLoader_loop.simps)
  have ht: "(\<lambda>text. Inr ex_trunc_builder) ([] :: string) = Inr (ex_trunc_builder :: sat_token builder) \<and>
      builder_entities (ex_trunc_builder :: sat_token builder) = [ex_body] @ ex_truncated # [ex_unknown] \<and>
      SatLoader_loop ex_registry [ex_body]
        (Loader_init (header_version (ex_trunc_builder :: sat_token builder))
           (builder_entities (ex_trunc_builder :: sat_token builder))) = Inr ex_trunc1 \<and>
      get_entity ex_registry (rec_uid (ex_truncated :: sat_token raw_entity))
        (rec_name (ex_truncated :: sat_token raw_entity)) (ex_trunc1 :: sat_token loader)
          = (1, ex_trunc2) \<and>
      cls_parse (ent_cls (objects (ex_trunc2 :: sat_token loader) ! 1))
        (SatDataParser (rec_data ex_truncated)
           (header_version (ex_trunc_builder :: sat_token builder)))
        = Inl (FormatError ''edge: missing field'')"
    using ex_trunc_steps(2,5) ex_trunc_steps(3)[where 'tok = sat_token]
    by (simp add: ex_trunc_builder_def del: SatLoader_loop.simps)
  note t = parse_error_fails_load[where parse_sab = "\<lambda>data. Inr ex_trunc_builder"
      and parse_sat = "\<lambda>text. Inr ex_trunc_builder" and reg = ex_registry
      and data = "[]" and str = "[]" and b = ex_trunc_builder and b' = ex_trunc_builder
      and pre = "[ex_body]" and pre' = "[ex_body]" and sab_entity = ex_truncated
      and sat_entity = ex_truncated and post = "[ex_unknown]" and post' = "[ex_unknown]"
      and L = ex_trunc1 and L' = ex_trunc1 and e = 1 and e' = 1 and ?L1.0 = ex_trunc2
      and L1' = ex_trunc2 and err = "FormatError ''edge: missing field''"
      and err' = "FormatError ''edge: missing field''"]
  from t[THEN conjunct1, THEN mp, OF hb] t[THEN conjunct2, THEN mp, OF ht]
  show ?thesis by blast
qed

subsection \<open>The registry\<close>

text \<open>
  C9: \<open>register\<close> never fails and returns the class; registering a class twice is
  registering it once; registering \<open>c1\<close> and then \<open>c2\<close> of the same \<open>type\<close> leaves
  the registry as registering \<open>c2\<close> alone does, and \<open>get_entity\<close> then constructs an
  instance of \<open>c2\<close> for that type name.
\<close>

theorem register_overwrite:
  "fst (register c reg) = c \<and>
   snd (register c (snd (register c reg))) = snd (register c reg) \<and>
   (cls_type c1 = cls_type c2 \<longrightarrow>
      snd (register c2 (snd (register c1 reg))) = snd (register c2 reg) \<and>
      snd (register c2 (snd (register c1 reg))) (cls_type c1) = Some c2 \<and>
      (map_of (entities L) uid = None \<longrightarrow>
         get_entity (snd (register c2 (snd (register c1 reg)))) uid (cls_type c1) L
           = (length (objects L),
              L\<lparr> objects := objects L @ [new_entity c2],
                 entities := entities L @ [(uid, length (objects L))] \<rparr>)))"
  by (simp add: register_def get_entity_def Let_def)

theorem register_overwrite_witness:
  "cls_type Body = cls_type ex_Body2 \<and>
   snd (register ex_Body2 (snd (register Body Map.empty))) ''body'' = Some ex_Body2 \<and>
   map_of (entities (Loader_init 700 ([] :: sab_token raw_entity list))) 1 = None \<and>
   get_entity (snd (register ex_Body2 (snd (register Body Map.empty)))) 1 ''body''
       (Loader_init 700 ([] :: sab_token raw_entity list))
     = (0, \<lparr> entities = [(1, 0)], version = 700, records = [], objects = [new_entity ex_Body2] \<rparr>)"
proof -
  have t: "cls_type ex_Body2 = ''body''" by (simp add: ex_Body2_def)
  show ?thesis
    using register_overwrite[where c = Body and ?c1.0 = Body and ?c2.0 = ex_Body2
        and reg = Map.empty
        and L = "Loader_init 700 ([] :: sab_token raw_entity list)" and uid = 1]
    by (auto simp: cls_simps t Loader_init_def)
qed

subsection \<open>Entities that are only referenced\<close>

text \<open>
  C10: an entity memoized under an identity that is not the identity of any record of
  the stream (it was created by a factory call of some \<open>parse\<close> method) has no \<open>id\<close>
  after \<open>load_entities\<close>: the attribute is unset and reading it raises AttributeError.
\<close>

theorem referenced_only_id_unset:
  fixes Lb :: "sab_token loader" and Lt :: "sat_token loader"
  shows
  "(SabLoader_load_entities reg (Loader_init v rb) = Inr Lb \<and>
      map_of (entities Lb) uid = Some e \<and> uid \<notin> rec_uid ` set rb \<longrightarrow>
      ent_id (objects Lb ! e) = None \<and> read_id (objects Lb ! e) = Inl (AttributeError ''id'')) \<and>
   (SatLoader_load_entities reg (Loader_init v rt) = Inr Lt \<and>
      map_of (entities Lt) uid' = Some e' \<and> uid' \<notin> rec_uid ` set rt \<longrightarrow>
      ent_id (objects Lt ! e') = None \<and> read_id (objects Lt ! e') = Inl (AttributeError ''id''))"
  unfolding SabLoader_load_entities_init SatLoader_load_entities_init
  by (auto simp: read_id_def dest!: load_records_from_init dest: loaded_id_unset)

theorem referenced_only_id_unset_witness:
  "SabLoader_load_entities ex_registry (Loader_init 700 (ex_records ex_sab_token))
     = Inr (ex_loaded ex_sab_token) \<and>
   SatLoader_load_entities ex_registry (Loader_init 700 (ex_records ex_sat_token))
     = Inr (ex_loaded ex_sat_token) \<and>
   map_of (entities (ex_loaded ex_sab_token)) 3 = Some 2 \<and>
   map_of (entities (ex_loaded ex_sat_token)) 3 = Some 2 \<and>
   3 \<notin> rec_uid ` set (ex_records ex_sab_token) \<and>
   3 \<notin> rec_uid ` set (ex_records ex_sat_token) \<and>
   ent_id (objects (ex_loaded ex_sab_token) ! 2) = None \<and>
   read_id (objects (ex_loaded ex_sab_token) ! 2) = Inl (AttributeError ''id'') \<and>
   ent_id (objects (ex_loaded ex_sat_token) ! 2) = None \<and>
   read_id (objects (ex_loaded ex_sat_token) ! 2) = Inl (AttributeError ''id'')"
  using referenced_only_id_unset[where reg = ex_registry and v = 700
      and rb = "ex_records ex_sab_token" and Lb = "ex_loaded ex_sab_token" and uid = 3 and e = 2
      and rt = "ex_records ex_sat_token" and Lt = "ex_loaded ex_sat_token" and uid' = 3 and e' = 2]
    ex_sab_load_entities ex_sat_load_entities
  by (simp add: ex_records_facts ex_loaded_def)

end
